theory Spec2Isabelle
  imports Complex_Main
begin

section \<open>Coulomb charge simulation: the physics core of simulation.py\<close>

text \<open>
  The development embeds the physics part of \<^verbatim>\<open>src/simulation.py\<close>: the charge
  record (\<^verbatim>\<open>charge_dtype\<close>), \<^verbatim>\<open>compute_forces\<close>, \<^verbatim>\<open>update_physics\<close>, the per-frame
  \<^verbatim>\<open>update\<close>, \<^verbatim>\<open>__init__\<close> and \<^verbatim>\<open>reset_simulation\<close>, and the three callbacks of
  \<^verbatim>\<open>src/ui.py\<close> that write to the simulation object.

  Numbers. Every \<^verbatim>\<open>float64\<close> of the source is a \<^typ>\<open>real\<close> here, and the arithmetic
  is exact: rounding, overflow, infinities and NaN are outside the model. Decimal
  literals are the rationals they denote (\<^verbatim>\<open>1e-14\<close> is \<open>1 / 10 ^ 14\<close>). Division by
  zero is the one place where \<^typ>\<open>real\<close> and \<^verbatim>\<open>float64\<close> disagree in kind (HOL gives
  \<open>0\<close>, NumPy gives \<open>inf\<close> or \<open>nan\<close>); a theorem whose content depends on the value of
  a quotient by the mass therefore assumes the mass is positive, and the quotient by
  \<open>dist ^ 3\<close> is always by a positive number.

  Rendering (the calls into vispy, marker sizes, trajectory line colours) is not part
  of the model.
\<close>

subsection \<open>Three-component vectors\<close>

text \<open>
  A NumPy array of shape \<open>(3,)\<close>; \<open>c0\<close>, \<open>c1\<close>, \<open>c2\<close> read \<^verbatim>\<open>r[0]\<close>, \<^verbatim>\<open>r[1]\<close>,
  \<^verbatim>\<open>r[2]\<close>. Addition, subtraction and negation are elementwise.
\<close>

datatype vec3 = Vec3 (c0: real) (c1: real) (c2: real)

instantiation vec3 :: ab_group_add
begin

definition zero_vec3 :: vec3 where
  "zero_vec3 = Vec3 0 0 0"

definition plus_vec3 :: "vec3 \<Rightarrow> vec3 \<Rightarrow> vec3" where
  "plus_vec3 a b = Vec3 (c0 a + c0 b) (c1 a + c1 b) (c2 a + c2 b)"

definition uminus_vec3 :: "vec3 \<Rightarrow> vec3" where
  "uminus_vec3 a = Vec3 (- c0 a) (- c1 a) (- c2 a)"

definition minus_vec3 :: "vec3 \<Rightarrow> vec3 \<Rightarrow> vec3" where
  "minus_vec3 a b = Vec3 (c0 a - c0 b) (c1 a - c1 b) (c2 a - c2 b)"

instance
  by standard
    (simp_all add: zero_vec3_def plus_vec3_def uminus_vec3_def minus_vec3_def)

end

text \<open>\<^verbatim>\<open>s * v\<close> and \<^verbatim>\<open>v * s\<close> for a scalar \<open>s\<close> and an array \<open>v\<close>.\<close>

definition scale :: "real \<Rightarrow> vec3 \<Rightarrow> vec3" where
  "scale s v = Vec3 (s * c0 v) (s * c1 v) (s * c2 v)"

text \<open>\<^verbatim>\<open>v / s\<close> for an array \<open>v\<close> and a scalar \<open>s\<close>.\<close>

definition vdiv :: "vec3 \<Rightarrow> real \<Rightarrow> vec3" where
  "vdiv v s = Vec3 (c0 v / s) (c1 v / s) (c2 v / s)"

subsection \<open>Constants and the charge record\<close>

definition k_e :: real where
  "k_e = 8988000000"

definition default_dt :: real where
  "default_dt = 5 / 1000"

text \<open>\<^verbatim>\<open>charge_dtype\<close>: one element of the structured array.\<close>

record charge =
  pos :: vec3
  vel :: vec3
  q :: real
  m :: real
  active :: bool

subsection \<open>compute\_forces\<close>

text \<open>
  The body of the inner loop (lines 290--296) for fixed \<open>i\<close> and one \<open>j\<close>: an
  inactive \<open>j\<close> is skipped; otherwise \<open>force_mag * r\<close> is added to row \<open>i\<close> and
  subtracted from row \<open>j\<close> of the force array.
\<close>

definition inner_body :: "charge list \<Rightarrow> nat \<Rightarrow> nat \<Rightarrow> vec3 list \<Rightarrow> vec3 list" where
  "inner_body charges i j forces =
     (if \<not> active (charges ! j) then forces
      else
        let r = pos (charges ! j) - pos (charges ! i);
            dist = sqrt ((c0 r)\<^sup>2 + (c1 r)\<^sup>2 + (c2 r)\<^sup>2) + 1 / 10 ^ 14;
            force_mag = k_e * q (charges ! i) * q (charges ! j) / dist ^ 3;
            forces1 = forces[i := forces ! i + scale force_mag r]
        in forces1[j := forces1 ! j - scale force_mag r])"

text \<open>The body of the outer loop (lines 286--296): an inactive \<open>i\<close> is skipped.\<close>

definition outer_body :: "charge list \<Rightarrow> nat \<Rightarrow> vec3 list \<Rightarrow> vec3 list" where
  "outer_body charges i forces =
     (if \<not> active (charges ! i) then forces
      else fold (inner_body charges i) [i + 1 ..< length charges] forces)"

definition compute_forces :: "charge list \<Rightarrow> vec3 list" where
  "compute_forces charges =
     fold (outer_body charges) [0 ..< length charges] (replicate (length charges) 0)"

subsection \<open>update\_physics\<close>

text \<open>
  \<^verbatim>\<open>np.any(p < boundary[0]) or np.any(p > boundary[1])\<close>: both comparisons are strict.
\<close>

definition out_of_bounds :: "vec3 \<Rightarrow> real \<times> real \<Rightarrow> bool" where
  "out_of_bounds p boundary =
     ((c0 p < fst boundary \<or> c1 p < fst boundary \<or> c2 p < fst boundary) \<or>
      (c0 p > snd boundary \<or> c1 p > snd boundary \<or> c2 p > snd boundary))"

text \<open>
  Lines 305--311 for one active element \<open>c\<close> with force row \<open>f\<close>: the velocity is
  written first, the position is computed from the velocity just written, and the
  flag is cleared when the new position is out of bounds.
\<close>

definition step_charge :: "charge \<Rightarrow> vec3 \<Rightarrow> real \<Rightarrow> real \<times> real \<Rightarrow> charge" where
  "step_charge c f dt boundary =
     (let cv = c\<lparr>vel := vel c + scale dt (vdiv f (m c))\<rparr>;
          cp = cv\<lparr>pos := pos cv + scale dt (vel cv)\<rparr>
      in if out_of_bounds (pos cp) boundary then cp\<lparr>active := False\<rparr> else cp)"

text \<open>
  The loop of \<^verbatim>\<open>update_physics\<close> over \<open>range(len(charges))\<close>, mutating the array
  element by element. The force array is the one \<^verbatim>\<open>compute_forces\<close> returned for the
  same charges, so it has a row for every index read.
\<close>

definition physics_body :: "vec3 list \<Rightarrow> real \<Rightarrow> real \<times> real \<Rightarrow> nat \<Rightarrow> charge list \<Rightarrow> charge list" where
  "physics_body forces dt boundary i charges =
     (if active (charges ! i)
      then charges[i := step_charge (charges ! i) (forces ! i) dt boundary]
      else charges)"

definition update_physics :: "charge list \<Rightarrow> vec3 list \<Rightarrow> real \<Rightarrow> real \<times> real \<Rightarrow> charge list" where
  "update_physics charges forces dt boundary =
     fold (physics_body forces dt boundary) [0 ..< length charges] charges"

subsection \<open>The simulation object\<close>

text \<open>A row of the \<^verbatim>\<open>float32\<close> colour array: four components, used by rendering only.\<close>

type_synonym color = "real \<times> real \<times> real \<times> real"

text \<open>An entry of \<^verbatim>\<open>preset_configs\<close>: the dictionary keys become fields.\<close>

record preset =
  preset_name :: string
  preset_charges :: "charge list"
  preset_colors :: "color list"

text \<open>
  The attributes of a \<^verbatim>\<open>ChargeSimulation\<close> that the physics reads or writes
  (\<^verbatim>\<open>self.dt\<close> is \<open>self_dt\<close>, and so on). Arrays are values here; the sharing of
  arrays between presets and simulation objects is the subject of the store model
  further down.
\<close>

record simulation =
  self_dt :: real
  self_presets :: "preset list"
  self_current_preset :: int
  self_charges :: "charge list"
  self_colors :: "color list"
  self_trajectories :: "vec3 list list"
  self_running :: bool

datatype error = IndexError

text \<open>
  Python's list subscript \<^verbatim>\<open>xs[k]\<close>: a negative \<open>k\<close> counts from the end, and an index
  out of range raises \<^verbatim>\<open>IndexError\<close>.
\<close>

definition py_index :: "'a list \<Rightarrow> int \<Rightarrow> error + 'a" where
  "py_index xs k =
     (if 0 \<le> k \<and> k < int (length xs) then Inr (xs ! nat k)
      else if k < 0 \<and> - int (length xs) \<le> k then Inr (xs ! nat (int (length xs) + k))
      else Inl IndexError)"

text \<open>
  \<^verbatim>\<open>__init__\<close> (lines 220--229). The module-level list \<^verbatim>\<open>preset_configs\<close> is a
  parameter: several of its entries are built from \<^verbatim>\<open>np.cos\<close>, \<^verbatim>\<open>np.sin\<close> and
  \<^verbatim>\<open>np.random.rand\<close>.
\<close>

definition ChargeSimulation_init :: "preset list \<Rightarrow> error + simulation" where
  "ChargeSimulation_init preset_configs =
     (case py_index preset_configs 0 of
        Inl e \<Rightarrow> Inl e
      | Inr p \<Rightarrow>
          Inr \<lparr>self_dt = default_dt,
               self_presets = preset_configs,
               self_current_preset = 0,
               self_charges = preset_charges p,
               self_colors = preset_colors p,
               self_trajectories = map (\<lambda>_. []) [0 ..< length (preset_charges p)],
               self_running = False\<rparr>)"

text \<open>
  \<^verbatim>\<open>reset_simulation\<close> (lines 357--363). When the subscript raises, the exception
  leaves the call and the result is the error.
\<close>

definition reset_simulation :: "simulation \<Rightarrow> int option \<Rightarrow> error + simulation" where
  "reset_simulation s preset_index =
     (let s1 = (case preset_index of None \<Rightarrow> s | Some k \<Rightarrow> s\<lparr>self_current_preset := k\<rparr>)
      in case py_index (self_presets s1) (self_current_preset s1) of
           Inl e \<Rightarrow> Inl e
         | Inr p \<Rightarrow>
             Inr (s1\<lparr>self_charges := preset_charges p,
                      self_colors := preset_colors p,
                      self_trajectories := map (\<lambda>_. []) [0 ..< length (preset_charges p)]\<rparr>))"

text \<open>
  Lines 322--323: for each index of the list, \<^verbatim>\<open>trajectories[i].append(pos_i.copy())\<close>.
  The subscript raises \<^verbatim>\<open>IndexError\<close> when the trajectory list is too short.
\<close>

fun append_positions :: "charge list \<Rightarrow> nat list \<Rightarrow> vec3 list list \<Rightarrow> error + vec3 list list" where
  "append_positions charges [] trajectories = Inr trajectories"
| "append_positions charges (i # rest) trajectories =
     (if i < length trajectories
      then append_positions charges rest
             (trajectories[i := trajectories ! i @ [pos (charges ! i)]])
      else Inl IndexError)"

text \<open>
  \<^verbatim>\<open>update\<close> (lines 313--323): the timer's callback. A paused simulation returns at
  once; otherwise forces, integration with the fixed boundary \<open>(-100000, 100000)\<close>,
  then the recording of positions.
\<close>

definition update :: "simulation \<Rightarrow> error + simulation" where
  "update s =
     (if \<not> self_running s then Inr s
      else
        let forces = compute_forces (self_charges s);
            charges = update_physics (self_charges s) forces (self_dt s) (- 100000, 100000)
        in case append_positions charges [0 ..< length charges] (self_trajectories s) of
             Inl e \<Rightarrow> Inl e
           | Inr ts \<Rightarrow> Inr (s\<lparr>self_charges := charges, self_trajectories := ts\<rparr>))"

subsection \<open>The callbacks of ui.py\<close>

text \<open>\<^verbatim>\<open>update_dt(value)\<close>: the slider's integer value divided by \<open>2000.0\<close>.\<close>

definition update_dt :: "simulation \<Rightarrow> int \<Rightarrow> simulation" where
  "update_dt s v = s\<lparr>self_dt := real_of_int v / 2000\<rparr>"

definition toggle_pause :: "simulation \<Rightarrow> simulation" where
  "toggle_pause s = s\<lparr>self_running := \<not> self_running s\<rparr>"

definition load_preset :: "simulation \<Rightarrow> int \<Rightarrow> error + simulation" where
  "load_preset s index = reset_simulation s (Some index)"

text \<open>
  A run is what happens to one simulation object between two resets: the timer fires
  (\<open>Tick\<close>), the slider moves, the pause button is pressed, in any order. The first
  exception ends the run.
\<close>

datatype event = Tick | SetDt int | TogglePause

fun run :: "event list \<Rightarrow> simulation \<Rightarrow> error + simulation" where
  "run [] s = Inr s"
| "run (Tick # es) s = (case update s of Inl e \<Rightarrow> Inl e | Inr s' \<Rightarrow> run es s')"
| "run (SetDt v # es) s = run es (update_dt s v)"
| "run (TogglePause # es) s = run es (toggle_pause s)"

text \<open>
  The number of timer callbacks of a run that got past the pause check, for a run
  that starts with the running flag \<open>r\<close>.
\<close>

fun advanced_ticks :: "event list \<Rightarrow> bool \<Rightarrow> nat" where
  "advanced_ticks [] r = 0"
| "advanced_ticks (Tick # es) r = (if r then 1 else 0) + advanced_ticks es r"
| "advanced_ticks (SetDt v # es) r = advanced_ticks es r"
| "advanced_ticks (TogglePause # es) r = advanced_ticks es (\<not> r)"

subsection \<open>The Dipole preset\<close>

text \<open>\<^verbatim>\<open>preset_configs[1]\<close> (lines 60--76).\<close>

definition dipole :: preset where
  "dipole =
     \<lparr>preset_name = ''Dipole'',
      preset_charges =
        [\<lparr>pos = Vec3 4 5 5, vel = Vec3 0 0 0, q = 5 / 10 ^ 6, m = 1 / 10 ^ 2, active = True\<rparr>,
         \<lparr>pos = Vec3 6 5 5, vel = Vec3 0 0 0, q = - (5 / 10 ^ 6), m = 1 / 10 ^ 2, active = True\<rparr>],
      preset_colors = [(1, 0, 0, 9 / 10), (0, 0, 1, 9 / 10)]\<rparr>"

subsection \<open>Arrays in a store\<close>

text \<open>
  NumPy arrays are mutable objects, and \<^verbatim>\<open>update_physics\<close> writes into the array it is
  given. To speak about which arrays are shared, the arrays live in a store: a cell
  per address for charge arrays and for colour arrays, and the next unused address.
  \<^verbatim>\<open>a.copy()\<close> allocates a new cell and fills it with the contents of \<open>a\<close>.
\<close>

type_synonym addr = nat

record store =
  charge_cells :: "addr \<Rightarrow> charge list"
  color_cells :: "addr \<Rightarrow> color list"
  next_addr :: addr

definition copy_charges :: "addr \<Rightarrow> store \<Rightarrow> addr \<times> store" where
  "copy_charges a h =
     (next_addr h,
      h\<lparr>charge_cells := (charge_cells h)(next_addr h := charge_cells h a),
        next_addr := Suc (next_addr h)\<rparr>)"

definition copy_colors :: "addr \<Rightarrow> store \<Rightarrow> addr \<times> store" where
  "copy_colors a h =
     (next_addr h,
      h\<lparr>color_cells := (color_cells h)(next_addr h := color_cells h a),
        next_addr := Suc (next_addr h)\<rparr>)"

text \<open>A preset and a simulation object whose arrays are addresses into the store.\<close>

record preset_ref =
  ref_name :: string
  ref_charges :: addr
  ref_colors :: addr

record sim_obj =
  obj_dt :: real
  obj_presets :: "preset_ref list"
  obj_current_preset :: int
  obj_charges :: addr
  obj_colors :: addr
  obj_trajectories :: "vec3 list list"
  obj_running :: bool

text \<open>\<^verbatim>\<open>__init__\<close> on the store: both arrays of the first preset are copied.\<close>

definition init_in_store :: "preset_ref list \<Rightarrow> store \<Rightarrow> error + (sim_obj \<times> store)" where
  "init_in_store preset_configs h =
     (case py_index preset_configs 0 of
        Inl e \<Rightarrow> Inl e
      | Inr p \<Rightarrow>
          let (a, h1) = copy_charges (ref_charges p) h;
              (b, h2) = copy_colors (ref_colors p) h1
          in Inr (\<lparr>obj_dt = default_dt,
                   obj_presets = preset_configs,
                   obj_current_preset = 0,
                   obj_charges = a,
                   obj_colors = b,
                   obj_trajectories = map (\<lambda>_. []) [0 ..< length (charge_cells h2 a)],
                   obj_running = False\<rparr>, h2))"

text \<open>\<^verbatim>\<open>reset_simulation\<close> on the store.\<close>

definition reset_in_store :: "sim_obj \<Rightarrow> int option \<Rightarrow> store \<Rightarrow> error + (sim_obj \<times> store)" where
  "reset_in_store ob preset_index h =
     (let ob1 = (case preset_index of None \<Rightarrow> ob | Some k \<Rightarrow> ob\<lparr>obj_current_preset := k\<rparr>)
      in case py_index (obj_presets ob1) (obj_current_preset ob1) of
           Inl e \<Rightarrow> Inl e
         | Inr p \<Rightarrow>
             let (a, h1) = copy_charges (ref_charges p) h;
                 (b, h2) = copy_colors (ref_colors p) h1
             in Inr (ob1\<lparr>obj_charges := a,
                         obj_colors := b,
                         obj_trajectories := map (\<lambda>_. []) [0 ..< length (charge_cells h2 a)]\<rparr>,
                     h2))"

text \<open>
  \<^verbatim>\<open>update\<close> on the store: \<^verbatim>\<open>update_physics\<close> overwrites the cell of \<^verbatim>\<open>self.charges\<close>
  and no other; the recorded positions are copies, so the trajectories stay values.
\<close>

definition update_in_store :: "sim_obj \<Rightarrow> store \<Rightarrow> error + (sim_obj \<times> store)" where
  "update_in_store ob h =
     (if \<not> obj_running ob then Inr (ob, h)
      else
        let forces = compute_forces (charge_cells h (obj_charges ob));
            charges = update_physics (charge_cells h (obj_charges ob)) forces
                        (obj_dt ob) (- 100000, 100000)
        in case append_positions charges [0 ..< length charges] (obj_trajectories ob) of
             Inl e \<Rightarrow> Inl e
           | Inr ts \<Rightarrow>
               Inr (ob\<lparr>obj_trajectories := ts\<rparr>,
                    h\<lparr>charge_cells := (charge_cells h)(obj_charges ob := charges)\<rparr>))"

text \<open>Reading a preset and a simulation object out of the store.\<close>

definition preset_view :: "store \<Rightarrow> preset_ref \<Rightarrow> preset" where
  "preset_view h p =
     \<lparr>preset_name = ref_name p,
      preset_charges = charge_cells h (ref_charges p),
      preset_colors = color_cells h (ref_colors p)\<rparr>"

definition sim_view :: "store \<Rightarrow> sim_obj \<Rightarrow> simulation" where
  "sim_view h ob =
     \<lparr>self_dt = obj_dt ob,
      self_presets = map (preset_view h) (obj_presets ob),
      self_current_preset = obj_current_preset ob,
      self_charges = charge_cells h (obj_charges ob),
      self_colors = color_cells h (obj_colors ob),
      self_trajectories = obj_trajectories ob,
      self_running = obj_running ob\<rparr>"

text \<open>Every array of the catalogue has been allocated.\<close>

definition catalogue_allocated :: "preset_ref list \<Rightarrow> store \<Rightarrow> bool" where
  "catalogue_allocated ps h =
     list_all (\<lambda>p. ref_charges p < next_addr h \<and> ref_colors p < next_addr h) ps"

subsection \<open>The specification's vocabulary\<close>

text \<open>
  The contribution of the ordered pair \<open>(a, b)\<close> as the specification words it:
  \<open>k_e * q_a * q_b / d ^ 3\<close> times \<open>r = pos_b - pos_a\<close>, with \<open>d\<close> the Euclidean norm of
  \<open>r\<close> plus \<open>1e-14\<close>.
\<close>

definition euclid_norm :: "vec3 \<Rightarrow> real" where
  "euclid_norm r = sqrt ((c0 r)\<^sup>2 + (c1 r)\<^sup>2 + (c2 r)\<^sup>2)"

definition pair_term :: "charge \<Rightarrow> charge \<Rightarrow> vec3" where
  "pair_term a b =
     scale (k_e * q a * q b / (euclid_norm (pos b - pos a) + 1 / 10 ^ 14) ^ 3) (pos b - pos a)"

text \<open>The indices of a range whose particles are active.\<close>

definition active_in :: "charge list \<Rightarrow> nat \<Rightarrow> nat \<Rightarrow> nat list" where
  "active_in charges lo hi = filter (\<lambda>j. active (charges ! j)) [lo ..< hi]"

text \<open>
  The net force on particle \<open>i\<close> as the specification words it: an inactive particle
  receives zero; an active one receives the pair term of every pair \<open>(i, j)\<close>, \<open>i < j\<close>,
  with \<open>j\<close> active, and the negated pair term of every pair \<open>(k, i)\<close>, \<open>k < i\<close>, with
  \<open>k\<close> active.
\<close>

definition net_force :: "charge list \<Rightarrow> nat \<Rightarrow> vec3" where
  "net_force charges i =
     (if active (charges ! i)
      then (\<Sum>j \<leftarrow> active_in charges (i + 1) (length charges). pair_term (charges ! i) (charges ! j))
         - (\<Sum>k \<leftarrow> active_in charges 0 i. pair_term (charges ! k) (charges ! i))
      else 0)"


subsection \<open>Invariants of a run\<close>

text \<open>
  The state invariant of the simulation object: \<^verbatim>\<open>__init__\<close> and \<^verbatim>\<open>reset_simulation\<close>
  create one trajectory per charge.
\<close>

definition one_trajectory_per_charge :: "simulation \<Rightarrow> bool" where
  "one_trajectory_per_charge s = (length (self_trajectories s) = length (self_charges s))"

text \<open>Every trajectory extended by the position of its charge.\<close>

definition record_all :: "charge list \<Rightarrow> vec3 list list \<Rightarrow> vec3 list list" where
  "record_all charges trajectories =
     map (\<lambda>k. trajectories ! k @ [pos (charges ! k)]) [0 ..< length trajectories]"

text \<open>
  What a run carries over from \<open>s\<close> to \<open>s'\<close>: the invariant and the number of charges;
  an inactive charge as it is; no flag goes from false to true; every trajectory grows
  by \<open>n\<close>.
\<close>

definition carried_over :: "nat \<Rightarrow> simulation \<Rightarrow> simulation \<Rightarrow> bool" where
  "carried_over n s s' =
     (one_trajectory_per_charge s' \<and>
      length (self_charges s') = length (self_charges s) \<and>
      (\<forall>k < length (self_charges s).
         (\<not> active (self_charges s ! k) \<longrightarrow> self_charges s' ! k = self_charges s ! k) \<and>
         (active (self_charges s' ! k) \<longrightarrow> active (self_charges s ! k)) \<and>
         length (self_trajectories s' ! k) = length (self_trajectories s ! k) + n))"

subsection \<open>Example inputs\<close>

text \<open>Charges and one run of the integrator, used where a theorem is applied to data.\<close>

definition probe :: charge where
  "probe = \<lparr>pos = Vec3 1 2 3, vel = Vec3 4 0 0, q = 1 / 10 ^ 6, m = 2, active = True\<rparr>"

definition parked :: charge where
  "parked = \<lparr>pos = Vec3 0 0 0, vel = Vec3 0 0 0, q = 1 / 10 ^ 6, m = 1, active = False\<rparr>"

definition outbound :: charge where
  "outbound = \<lparr>pos = Vec3 (99 / 10) 0 0, vel = Vec3 1 0 0, q = 1 / 10 ^ 6, m = 2, active = True\<rparr>"

definition grazing :: charge where
  "grazing = \<lparr>pos = Vec3 (19 / 2) 0 (- 10), vel = Vec3 1 0 0, q = 1 / 10 ^ 6, m = 2, active = True\<rparr>"

text \<open>A two-charge preset, a running simulation loaded from it, and a run.\<close>

definition demo_preset :: preset where
  "demo_preset =
     \<lparr>preset_name = ''Demo'',
      preset_charges = [probe, parked],
      preset_colors = [(1, 0, 0, 1), (0, 0, 1, 1)]\<rparr>"

definition demo_start :: simulation where
  "demo_start =
     \<lparr>self_dt = default_dt,
      self_presets = [demo_preset],
      self_current_preset = 0,
      self_charges = [probe, parked],
      self_colors = [(1, 0, 0, 1), (0, 0, 1, 1)],
      self_trajectories = [[], []],
      self_running = True\<rparr>"

definition demo_events :: "event list" where
  "demo_events = [Tick, TogglePause, Tick, SetDt 4, TogglePause, Tick]"

text \<open>
  A store that holds the arrays of a one-entry catalogue (cells 0 and 1), before and
  after \<^verbatim>\<open>__init__\<close> has made its copies (cells 2 and 3), and the object created.
\<close>

definition demo_ref :: preset_ref where
  "demo_ref = \<lparr>ref_name = ''Demo'', ref_charges = 0, ref_colors = 1\<rparr>"

definition demo_catalogue :: "preset_ref list" where
  "demo_catalogue = [demo_ref]"

definition demo_store0 :: store where
  "demo_store0 =
     \<lparr>charge_cells = (\<lambda>_. [])(0 := [probe, parked]),
      color_cells = (\<lambda>_. [])(1 := [(1, 0, 0, 1), (0, 0, 1, 1)]),
      next_addr = 2\<rparr>"

definition demo_store :: store where
  "demo_store =
     \<lparr>charge_cells = (\<lambda>_. [])(0 := [probe, parked], 2 := [probe, parked]),
      color_cells = (\<lambda>_. [])(1 := [(1, 0, 0, 1), (0, 0, 1, 1)], 3 := [(1, 0, 0, 1), (0, 0, 1, 1)]),
      next_addr = 4\<rparr>"

definition demo_obj :: sim_obj where
  "demo_obj =
     \<lparr>obj_dt = default_dt,
      obj_presets = demo_catalogue,
      obj_current_preset = 0,
      obj_charges = 2,
      obj_colors = 3,
      obj_trajectories = [[], []],
      obj_running = False\<rparr>"



text \<open>
  The charges of the Dipole preset after one frame: \<^verbatim>\<open>compute_forces\<close>, then
  \<^verbatim>\<open>update_physics\<close> with the default time step and the boundary of \<^verbatim>\<open>update\<close>.
\<close>

definition dipole_tick :: "charge list" where
  "dipole_tick =
     update_physics (preset_charges dipole) (compute_forces (preset_charges dipole))
       default_dt (- 100000, 100000)"

section \<open>Basic facts\<close>

lemma vec3_sel_simps:
  "c0 (0::vec3) = 0" "c1 (0::vec3) = 0" "c2 (0::vec3) = 0"
  "c0 (a + b) = c0 a + c0 b" "c1 (a + b) = c1 a + c1 b" "c2 (a + b) = c2 a + c2 b"
  "c0 (a - b) = c0 a - c0 b" "c1 (a - b) = c1 a - c1 b" "c2 (a - b) = c2 a - c2 b"
  "c0 (- a) = - c0 a" "c1 (- a) = - c1 a" "c2 (- a) = - c2 a"
  "c0 (scale s a) = s * c0 a" "c1 (scale s a) = s * c1 a" "c2 (scale s a) = s * c2 a"
  "c0 (vdiv a s) = c0 a / s" "c1 (vdiv a s) = c1 a / s" "c2 (vdiv a s) = c2 a / s"
  by (simp_all add: zero_vec3_def plus_vec3_def minus_vec3_def uminus_vec3_def
      scale_def vdiv_def)

subsection \<open>Array lengths\<close>

lemma length_inner_body: "length (inner_body charges i j forces) = length forces"
  by (simp add: inner_body_def Let_def)

lemma length_fold_inner: "length (fold (inner_body charges i) js forces) = length forces"
  by (induction js arbitrary: forces) (simp_all add: length_inner_body)

lemma length_outer_body: "length (outer_body charges i forces) = length forces"
  by (simp add: outer_body_def length_fold_inner)

lemma length_fold_outer: "length (fold (outer_body charges) ks forces) = length forces"
  by (induction ks arbitrary: forces) (simp_all add: length_outer_body)

lemma length_compute_forces: "length (compute_forces charges) = length charges"
  by (simp add: compute_forces_def length_fold_outer)

lemma length_physics_body: "length (physics_body forces dt boundary i charges) = length charges"
  by (simp add: physics_body_def)

lemma length_fold_physics:
  "length (fold (physics_body forces dt boundary) ks charges) = length charges"
  by (induction ks arbitrary: charges) (simp_all add: length_physics_body)

lemma length_update_physics: "length (update_physics charges forces dt boundary) = length charges"
  by (simp add: update_physics_def length_fold_physics)

subsection \<open>What update\_physics does to each element\<close>

lemma fold_physics_nth:
  "k \<le> length charges \<Longrightarrow> i < length charges \<Longrightarrow>
   fold (physics_body forces dt boundary) [0 ..< k] charges ! i =
     (if i < k \<and> active (charges ! i)
      then step_charge (charges ! i) (forces ! i) dt boundary
      else charges ! i)"
proof (induction k arbitrary: i)
  case 0
  then show ?case by simp
next
  case (Suc k)
  let ?cs = "fold (physics_body forces dt boundary) [0 ..< k] charges"
  have len: "length ?cs = length charges" by (rule length_fold_physics)
  have kk: "?cs ! k = charges ! k" using Suc.IH [of k] Suc.prems by simp
  have ii: "?cs ! i = (if i < k \<and> active (charges ! i)
      then step_charge (charges ! i) (forces ! i) dt boundary else charges ! i)"
    using Suc.IH [of i] Suc.prems by simp
  have unroll: "fold (physics_body forces dt boundary) [0 ..< Suc k] charges =
      (if active (?cs ! k) then ?cs[k := step_charge (?cs ! k) (forces ! k) dt boundary] else ?cs)"
    by (simp only: upt_Suc_append [OF le0] fold_append fold_simps o_apply physics_body_def)
  show ?case
  proof (cases "i = k")
    case True
    then show ?thesis using Suc.prems len kk unfolding unroll by simp
  next
    case False
    then show ?thesis using Suc.prems len kk ii unfolding unroll by (auto simp add: less_Suc_eq)
  qed
qed

lemma update_physics_nth:
  "i < length charges \<Longrightarrow>
   update_physics charges forces dt boundary ! i =
     (if active (charges ! i)
      then step_charge (charges ! i) (forces ! i) dt boundary
      else charges ! i)"
  by (simp add: update_physics_def fold_physics_nth)

subsection \<open>What compute\_forces leaves in each row\<close>

lemma inner_body_pair_term:
  "inner_body charges i j forces =
     (if \<not> active (charges ! j) then forces
      else (forces[i := forces ! i + pair_term (charges ! i) (charges ! j)])
             [j := (forces[i := forces ! i + pair_term (charges ! i) (charges ! j)]) ! j
                     - pair_term (charges ! i) (charges ! j)])"
  by (simp add: inner_body_def pair_term_def euclid_norm_def Let_def)

lemma inner_body_nth:
  assumes "i \<noteq> j" "i < length forces" "j < length forces" "p < length forces"
  shows "inner_body charges i j forces ! p =
     forces ! p +
       (if active (charges ! j)
        then (if p = i then pair_term (charges ! i) (charges ! j)
              else if p = j then - pair_term (charges ! i) (charges ! j) else 0)
        else 0)"
  using assms by (simp add: inner_body_pair_term nth_list_update)

lemma fold_inner_nth:
  assumes "distinct js" "i \<notin> set js" "\<forall>j\<in>set js. j < length forces"
    "i < length forces" "p < length forces"
  shows "fold (inner_body charges i) js forces ! p =
     forces ! p +
       (if p = i
        then (\<Sum>j \<leftarrow> filter (\<lambda>j. active (charges ! j)) js. pair_term (charges ! i) (charges ! j))
        else if p \<in> set js \<and> active (charges ! p)
        then - pair_term (charges ! i) (charges ! p)
        else 0)"
  using assms
proof (induction js arbitrary: forces)
  case Nil
  then show ?case by simp
next
  case (Cons j js)
  let ?F = "inner_body charges i j forces"
  have len: "length ?F = length forces" by (rule length_inner_body)
  have ij: "i \<noteq> j" and jl: "j < length forces" and jn: "j \<notin> set js"
    using Cons.prems by auto
  have IH: "fold (inner_body charges i) js ?F ! p =
     ?F ! p +
       (if p = i
        then (\<Sum>j \<leftarrow> filter (\<lambda>j. active (charges ! j)) js. pair_term (charges ! i) (charges ! j))
        else if p \<in> set js \<and> active (charges ! p)
        then - pair_term (charges ! i) (charges ! p)
        else 0)"
    using Cons.prems by (intro Cons.IH) (simp_all add: len)
  have first: "?F ! p = forces ! p +
       (if active (charges ! j)
        then (if p = i then pair_term (charges ! i) (charges ! j)
              else if p = j then - pair_term (charges ! i) (charges ! j) else 0)
        else 0)"
    using ij jl Cons.prems by (intro inner_body_nth) simp_all
  show ?case
    unfolding fold_simps IH first using ij jn by (auto simp add: add.assoc)
qed

lemma active_in_Suc:
  "active_in charges 0 (Suc k) =
     active_in charges 0 k @ (if active (charges ! k) then [k] else [])"
  by (simp add: active_in_def)

lemma outer_body_nth:
  assumes "k < length charges" "length forces = length charges" "p < length charges"
  shows "outer_body charges k forces ! p =
     forces ! p +
       (if active (charges ! k)
        then (if p = k
              then (\<Sum>j \<leftarrow> active_in charges (k + 1) (length charges).
                      pair_term (charges ! k) (charges ! j))
              else if k < p \<and> active (charges ! p)
              then - pair_term (charges ! k) (charges ! p)
              else 0)
        else 0)"
proof (cases "active (charges ! k)")
  case False
  then show ?thesis by (simp add: outer_body_def)
next
  case True
  have "fold (inner_body charges k) [k + 1 ..< length charges] forces ! p =
     forces ! p +
       (if p = k
        then (\<Sum>j \<leftarrow> filter (\<lambda>j. active (charges ! j)) [k + 1 ..< length charges].
                pair_term (charges ! k) (charges ! j))
        else if p \<in> set [k + 1 ..< length charges] \<and> active (charges ! p)
        then - pair_term (charges ! k) (charges ! p)
        else 0)"
    using assms by (intro fold_inner_nth) simp_all
  then show ?thesis using True assms by (auto simp add: outer_body_def active_in_def)
qed

lemma fold_outer_nth:
  assumes "k \<le> length charges" "p < length charges"
  shows "fold (outer_body charges) [0 ..< k] (replicate (length charges) 0) ! p =
     (if active (charges ! p)
      then (if p < k
            then (\<Sum>j \<leftarrow> active_in charges (p + 1) (length charges).
                    pair_term (charges ! p) (charges ! j))
            else 0)
         - (\<Sum>i \<leftarrow> active_in charges 0 (min p k). pair_term (charges ! i) (charges ! p))
      else 0)"
  using assms
proof (induction k arbitrary: p)
  case 0
  then show ?case by (simp add: active_in_def)
next
  case (Suc k)
  let ?F = "fold (outer_body charges) [0 ..< k] (replicate (length charges) 0)"
  have len: "length ?F = length charges" by (simp add: length_fold_outer)
  have unroll: "fold (outer_body charges) [0 ..< Suc k] (replicate (length charges) 0) =
      outer_body charges k ?F"
    by simp
  have IH: "?F ! p =
     (if active (charges ! p)
      then (if p < k
            then (\<Sum>j \<leftarrow> active_in charges (p + 1) (length charges).
                    pair_term (charges ! p) (charges ! j))
            else 0)
         - (\<Sum>i \<leftarrow> active_in charges 0 (min p k). pair_term (charges ! i) (charges ! p))
      else 0)"
    using Suc.prems by (intro Suc.IH) simp_all
  have step: "outer_body charges k ?F ! p =
     ?F ! p +
       (if active (charges ! k)
        then (if p = k
              then (\<Sum>j \<leftarrow> active_in charges (k + 1) (length charges).
                      pair_term (charges ! k) (charges ! j))
              else if k < p \<and> active (charges ! p)
              then - pair_term (charges ! k) (charges ! p)
              else 0)
        else 0)"
    using Suc.prems len by (intro outer_body_nth) simp_all
  consider "p < k" | "p = k" | "k < p" by linarith
  then show ?case
  proof cases
    case 1
    then have "min p (Suc k) = p" "min p k = p" by simp_all
    then show ?thesis unfolding unroll step IH using 1 by simp
  next
    case 2
    then have "min p (Suc k) = k" "min p k = k" by simp_all
    then show ?thesis unfolding unroll step IH using 2 by simp
  next
    case 3
    then have "min p (Suc k) = Suc k" "min p k = k" by simp_all
    then show ?thesis unfolding unroll step IH using 3 by (simp add: active_in_Suc)
  qed
qed

lemma compute_forces_nth:
  "i < length charges \<Longrightarrow> compute_forces charges ! i = net_force charges i"
  by (simp add: compute_forces_def fold_outer_nth net_force_def)

lemma compute_forces_eq:
  "compute_forces charges = map (net_force charges) [0 ..< length charges]"
  by (rule nth_equalityI) (simp_all add: length_compute_forces compute_forces_nth)

subsection \<open>Single steps and small sums\<close>

lemma step_charge_sel:
  "vel (step_charge c f dt boundary) = vel c + scale dt (vdiv f (m c))"
  "pos (step_charge c f dt boundary) = pos c + scale dt (vel c + scale dt (vdiv f (m c)))"
  "q (step_charge c f dt boundary) = q c"
  "m (step_charge c f dt boundary) = m c"
  "active (step_charge c f dt boundary) =
     (active c \<and> \<not> out_of_bounds (pos c + scale dt (vel c + scale dt (vdiv f (m c)))) boundary)"
  by (simp_all add: step_charge_def Let_def)

lemma scale_zero: "scale s 0 = 0" "vdiv 0 s = 0"
  by (simp_all add: scale_def vdiv_def zero_vec3_def)

lemma filter_upt_none:
  "(\<And>k. lo \<le> k \<Longrightarrow> k < hi \<Longrightarrow> \<not> P k) \<Longrightarrow> filter P [lo ..< hi] = []"
  by (simp add: filter_empty_conv)

lemma filter_upt_single:
  assumes "lo \<le> j" "j < hi" "P j" "\<And>k. lo \<le> k \<Longrightarrow> k < hi \<Longrightarrow> k \<noteq> j \<Longrightarrow> \<not> P k"
  shows "filter P [lo ..< hi] = [j]"
proof -
  have split: "[lo ..< hi] = [lo ..< j] @ j # [Suc j ..< hi]"
    using assms(1,2) by (metis le_add_diff_inverse less_imp_le_nat upt_add_eq_append upt_conv_Cons)
  have "filter P [lo ..< j] = []" using assms by (intro filter_upt_none) simp_all
  moreover have "filter P [Suc j ..< hi] = []" using assms by (intro filter_upt_none) simp_all
  ultimately show ?thesis using assms(3) by (simp add: split)
qed

lemma net_force_alone:
  assumes "i < length charges" "\<And>j. j < length charges \<Longrightarrow> j \<noteq> i \<Longrightarrow> \<not> active (charges ! j)"
  shows "net_force charges i = 0"
proof -
  have "active_in charges (i + 1) (length charges) = []"
    unfolding active_in_def using assms by (intro filter_upt_none) simp_all
  moreover have "active_in charges 0 i = []"
    unfolding active_in_def using assms by (intro filter_upt_none) simp_all
  ultimately show ?thesis by (simp add: net_force_def)
qed

lemma vec3_arith:
  "Vec3 a b c + Vec3 d e f = Vec3 (a + d) (b + e) (c + f)"
  "Vec3 a b c - Vec3 d e f = Vec3 (a - d) (b - e) (c - f)"
  "- Vec3 a b c = Vec3 (- a) (- b) (- c)"
  "scale s (Vec3 a b c) = Vec3 (s * a) (s * b) (s * c)"
  "vdiv (Vec3 a b c) s = Vec3 (a / s) (b / s) (c / s)"
  by (simp_all add: plus_vec3_def minus_vec3_def uminus_vec3_def scale_def vdiv_def)

subsection \<open>The Dipole preset, first frame\<close>

lemma dipole_charges:
  "preset_charges dipole =
     [\<lparr>pos = Vec3 4 5 5, vel = Vec3 0 0 0, q = 5 / 10 ^ 6, m = 1 / 10 ^ 2, active = True\<rparr>,
      \<lparr>pos = Vec3 6 5 5, vel = Vec3 0 0 0, q = - (5 / 10 ^ 6), m = 1 / 10 ^ 2, active = True\<rparr>]"
  by (simp add: dipole_def)

lemma dipole_force_0:
  "compute_forces (preset_charges dipole) ! 0 =
     Vec3 (- (2 * (k_e * (5 / 10 ^ 6) * (5 / 10 ^ 6) / (2 + 1 / 10 ^ 14) ^ 3))) 0 0"
proof -
  have len: "0 < length (preset_charges dipole)" by (simp add: dipole_charges)
  have a1: "active_in (preset_charges dipole) (0 + 1) (length (preset_charges dipole)) = [1]"
    by (simp add: dipole_charges active_in_def upt_rec)
  have a2: "active_in (preset_charges dipole) 0 0 = []"
    by (simp add: active_in_def)
  have "compute_forces (preset_charges dipole) ! 0 = net_force (preset_charges dipole) 0"
    using len by (rule compute_forces_nth)
  also have "\<dots> = pair_term (preset_charges dipole ! 0) (preset_charges dipole ! 1)"
    unfolding net_force_def a1 a2 by (simp add: dipole_charges)
  also have "\<dots> = Vec3 (- (2 * (k_e * (5 / 10 ^ 6) * (5 / 10 ^ 6) / (2 + 1 / 10 ^ 14) ^ 3))) 0 0"
    by (simp add: dipole_charges pair_term_def euclid_norm_def vec3_arith)
  finally show ?thesis .
qed

lemma dipole_force_bounds:
  "56174 / 10 ^ 6 < 2 * (k_e * (5 / 10 ^ 6) * (5 / 10 ^ 6) / (2 + 1 / 10 ^ 14) ^ 3)"
  "2 * (k_e * (5 / 10 ^ 6) * (5 / 10 ^ 6) / (2 + 1 / 10 ^ 14) ^ 3) < 56175 / 10 ^ 6"
  by (simp_all add: k_e_def power3_eq_cube)


lemma dipole_tick_0:
  "vel (dipole_tick ! 0) =
     Vec3 (- (2 * (k_e * (5 / 10 ^ 6) * (5 / 10 ^ 6) / (2 + 1 / 10 ^ 14) ^ 3)) / 2) 0 0"
  "pos (dipole_tick ! 0) =
     Vec3 (4 - (2 * (k_e * (5 / 10 ^ 6) * (5 / 10 ^ 6) / (2 + 1 / 10 ^ 14) ^ 3)) / 400) 5 5"
proof -
  have len: "0 < length (preset_charges dipole)" by (simp add: dipole_charges)
  have nth: "dipole_tick ! 0 =
      step_charge (preset_charges dipole ! 0) (compute_forces (preset_charges dipole) ! 0)
        default_dt (- 100000, 100000)"
    unfolding dipole_tick_def using len by (simp add: update_physics_nth dipole_charges)
  show "vel (dipole_tick ! 0) =
     Vec3 (- (2 * (k_e * (5 / 10 ^ 6) * (5 / 10 ^ 6) / (2 + 1 / 10 ^ 14) ^ 3)) / 2) 0 0"
    unfolding nth dipole_force_0
    by (simp add: step_charge_sel dipole_charges default_dt_def vec3_arith)
  show "pos (dipole_tick ! 0) =
     Vec3 (4 - (2 * (k_e * (5 / 10 ^ 6) * (5 / 10 ^ 6) / (2 + 1 / 10 ^ 14) ^ 3)) / 400) 5 5"
    unfolding nth dipole_force_0
    by (simp add: step_charge_sel dipole_charges default_dt_def vec3_arith)
qed

subsection \<open>Recording positions, one frame, a run\<close>

lemma append_positions_general:
  assumes "distinct ks" "\<forall>k \<in> set ks. k < length trajectories"
  shows "append_positions charges ks trajectories =
     Inr (map (\<lambda>k. if k \<in> set ks then trajectories ! k @ [pos (charges ! k)] else trajectories ! k)
            [0 ..< length trajectories])"
  using assms
proof (induction ks arbitrary: trajectories)
  case Nil
  then show ?case by (simp add: map_nth)
next
  case (Cons i ks)
  let ?ts = "trajectories[i := trajectories ! i @ [pos (charges ! i)]]"
  have il: "i < length trajectories" and ni: "i \<notin> set ks" and d: "distinct ks"
    using Cons.prems by auto
  have neq: "\<forall>x \<in> set ks. i \<noteq> x" using ni by auto
  have IH: "append_positions charges ks ?ts =
     Inr (map (\<lambda>k. if k \<in> set ks then ?ts ! k @ [pos (charges ! k)] else ?ts ! k)
            [0 ..< length ?ts])"
    using Cons.prems d by (intro Cons.IH) simp_all
  have "append_positions charges (i # ks) trajectories = append_positions charges ks ?ts"
    using il by simp
  also have "\<dots> = Inr (map (\<lambda>k. if k \<in> set (i # ks) then trajectories ! k @ [pos (charges ! k)]
                                else trajectories ! k) [0 ..< length trajectories])"
    unfolding IH using ni il neq by (auto simp add: nth_list_update)
  finally show ?case .
qed

lemma append_positions_all:
  assumes "length trajectories = length charges"
  shows "append_positions charges [0 ..< length charges] trajectories =
           Inr (record_all charges trajectories)"
proof -
  have "append_positions charges [0 ..< length charges] trajectories =
     Inr (map (\<lambda>k. if k \<in> set [0 ..< length charges]
                    then trajectories ! k @ [pos (charges ! k)] else trajectories ! k)
            [0 ..< length trajectories])"
    using assms by (intro append_positions_general) simp_all
  then show ?thesis using assms by (simp add: record_all_def)
qed

lemma append_positions_short:
  assumes "length trajectories < length charges"
  shows "append_positions charges [0 ..< length charges] trajectories = Inl IndexError"
proof -
  have gen: "append_positions charges [lo ..< hi] ts = Inl IndexError"
    if "lo \<le> length ts" "length ts < hi" for lo hi and ts :: "vec3 list list"
    using that
  proof (induction "length ts - lo" arbitrary: lo ts)
    case 0
    then have "lo = length ts" by simp
    then show ?case using 0 by (simp add: upt_rec)
  next
    case (Suc d)
    then have "lo < length ts" "lo < hi" by simp_all
    then have "append_positions charges [lo ..< hi] ts =
        append_positions charges [Suc lo ..< hi] (ts[lo := ts ! lo @ [pos (charges ! lo)]])"
      by (simp add: upt_rec)
    also have "\<dots> = Inl IndexError"
      using Suc by (intro Suc.hyps(1)) simp_all
    finally show ?case .
  qed
  show ?thesis using assms by (intro gen) simp_all
qed

lemma update_paused: "\<not> self_running s \<Longrightarrow> update s = Inr s"
  by (simp add: update_def)

lemma update_running:
  assumes "self_running s" "one_trajectory_per_charge s"
  shows "update s =
     Inr (s\<lparr>self_charges :=
              update_physics (self_charges s) (compute_forces (self_charges s)) (self_dt s)
                (- 100000, 100000),
            self_trajectories :=
              record_all
                (update_physics (self_charges s) (compute_forces (self_charges s)) (self_dt s)
                   (- 100000, 100000))
                (self_trajectories s)\<rparr>)"
proof -
  let ?cs = "update_physics (self_charges s) (compute_forces (self_charges s)) (self_dt s)
                (- 100000, 100000)"
  have "length (self_trajectories s) = length ?cs"
    using assms(2) by (simp add: one_trajectory_per_charge_def length_update_physics)
  then have "append_positions ?cs [0 ..< length ?cs] (self_trajectories s) =
      Inr (record_all ?cs (self_trajectories s))"
    by (rule append_positions_all)
  then show ?thesis using assms(1) by (simp add: update_def Let_def)
qed

lemma active_step_charge: "active (step_charge c f dt boundary) \<Longrightarrow> active c"
  by (simp add: step_charge_sel)

lemma update_physics_inactive:
  "i < length charges \<Longrightarrow> \<not> active (charges ! i) \<Longrightarrow>
   update_physics charges forces dt boundary ! i = charges ! i"
  by (simp add: update_physics_nth)

lemma update_physics_active_mono:
  "i < length charges \<Longrightarrow> active (update_physics charges forces dt boundary ! i) \<Longrightarrow>
   active (charges ! i)"
  by (auto simp add: update_physics_nth step_charge_sel split: if_splits)

lemma record_all_nth:
  "k < length trajectories \<Longrightarrow>
   record_all charges trajectories ! k = trajectories ! k @ [pos (charges ! k)]"
  by (simp add: record_all_def)

lemma length_record_all: "length (record_all charges trajectories) = length trajectories"
  by (simp add: record_all_def)

lemma update_effect:
  assumes "one_trajectory_per_charge s"
  shows "\<exists>s'. update s = Inr s' \<and> one_trajectory_per_charge s' \<and>
     length (self_charges s') = length (self_charges s) \<and>
     self_running s' = self_running s \<and>
     (\<forall>k < length (self_charges s).
        (\<not> active (self_charges s ! k) \<longrightarrow> self_charges s' ! k = self_charges s ! k) \<and>
        (active (self_charges s' ! k) \<longrightarrow> active (self_charges s ! k)) \<and>
        length (self_trajectories s' ! k) =
          length (self_trajectories s ! k) + (if self_running s then 1 else 0))"
proof (cases "self_running s")
  case False
  then show ?thesis using assms by (simp add: update_paused)
next
  case True
  let ?cs = "update_physics (self_charges s) (compute_forces (self_charges s)) (self_dt s)
                (- 100000, 100000)"
  let ?s' = "s\<lparr>self_charges := ?cs, self_trajectories := record_all ?cs (self_trajectories s)\<rparr>"
  have len: "length (self_trajectories s) = length (self_charges s)"
    using assms by (simp add: one_trajectory_per_charge_def)
  have u: "update s = Inr ?s'" by (rule update_running [OF True assms])
  have wf: "one_trajectory_per_charge ?s'"
    using len by (simp add: one_trajectory_per_charge_def length_update_physics length_record_all)
  have l: "length (self_charges ?s') = length (self_charges s)"
    by (simp add: length_update_physics)
  have r: "self_running ?s' = self_running s" by simp
  have each: "(\<not> active (self_charges s ! k) \<longrightarrow> self_charges ?s' ! k = self_charges s ! k) \<and>
        (active (self_charges ?s' ! k) \<longrightarrow> active (self_charges s ! k)) \<and>
        length (self_trajectories ?s' ! k) =
          length (self_trajectories s ! k) + (if self_running s then 1 else 0)"
    if "k < length (self_charges s)" for k
  proof (intro conjI impI)
    assume "\<not> active (self_charges s ! k)"
    then show "self_charges ?s' ! k = self_charges s ! k"
      using that by (simp add: update_physics_inactive)
  next
    assume "active (self_charges ?s' ! k)"
    then have "active (?cs ! k)" by simp
    then show "active (self_charges s ! k)" using that by (rule update_physics_active_mono [rotated])
  next
    show "length (self_trajectories ?s' ! k) =
          length (self_trajectories s ! k) + (if self_running s then 1 else 0)"
      using that len True by (simp add: record_all_nth)
  qed
  show ?thesis using u wf l r each by blast
qed

lemma carried_over_refl: "one_trajectory_per_charge s \<Longrightarrow> carried_over 0 s s"
  by (simp add: carried_over_def)

lemma carried_over_trans:
  assumes "carried_over a s s1" "carried_over b s1 s2"
  shows "carried_over (a + b) s s2"
proof -
  have l1: "length (self_charges s1) = length (self_charges s)"
    using assms(1) unfolding carried_over_def by (elim conjE)
  have l2: "length (self_charges s2) = length (self_charges s1)"
    using assms(2) unfolding carried_over_def by (elim conjE)
  have wf: "one_trajectory_per_charge s2"
    using assms(2) unfolding carried_over_def by (elim conjE)
  have each: "(\<not> active (self_charges s ! k) \<longrightarrow> self_charges s2 ! k = self_charges s ! k) \<and>
         (active (self_charges s2 ! k) \<longrightarrow> active (self_charges s ! k)) \<and>
         length (self_trajectories s2 ! k) = length (self_trajectories s ! k) + (a + b)"
    if k: "k < length (self_charges s)" for k
  proof -
    have k1: "k < length (self_charges s1)" using k l1 by simp
    have A: "(\<not> active (self_charges s ! k) \<longrightarrow> self_charges s1 ! k = self_charges s ! k) \<and>
         (active (self_charges s1 ! k) \<longrightarrow> active (self_charges s ! k)) \<and>
         length (self_trajectories s1 ! k) = length (self_trajectories s ! k) + a"
      using assms(1) k unfolding carried_over_def by blast
    have B: "(\<not> active (self_charges s1 ! k) \<longrightarrow> self_charges s2 ! k = self_charges s1 ! k) \<and>
         (active (self_charges s2 ! k) \<longrightarrow> active (self_charges s1 ! k)) \<and>
         length (self_trajectories s2 ! k) = length (self_trajectories s1 ! k) + b"
      using assms(2) k1 unfolding carried_over_def by blast
    show ?thesis
    proof (intro conjI impI)
      assume n: "\<not> active (self_charges s ! k)"
      with A have e1: "self_charges s1 ! k = self_charges s ! k" by blast
      with n have "\<not> active (self_charges s1 ! k)" by simp
      with B have "self_charges s2 ! k = self_charges s1 ! k" by blast
      with e1 show "self_charges s2 ! k = self_charges s ! k" by (rule trans [rotated])
    next
      assume "active (self_charges s2 ! k)"
      with B have "active (self_charges s1 ! k)" by blast
      with A show "active (self_charges s ! k)" by blast
    next
      from A have "length (self_trajectories s1 ! k) = length (self_trajectories s ! k) + a"
        by blast
      moreover from B have
        "length (self_trajectories s2 ! k) = length (self_trajectories s1 ! k) + b" by blast
      ultimately show
        "length (self_trajectories s2 ! k) = length (self_trajectories s ! k) + (a + b)"
        by linarith
    qed
  qed
  have l: "length (self_charges s2) = length (self_charges s)" using l1 l2 by (rule trans [rotated])
  show ?thesis unfolding carried_over_def using wf l each by blast
qed

lemma update_carried_over:
  assumes "one_trajectory_per_charge s"
  shows "\<exists>s'. update s = Inr s' \<and> self_running s' = self_running s \<and>
           carried_over (if self_running s then 1 else 0) s s'"
proof -
  from update_effect [OF assms] obtain s' where
    S: "update s = Inr s' \<and> one_trajectory_per_charge s' \<and>
     length (self_charges s') = length (self_charges s) \<and>
     self_running s' = self_running s \<and>
     (\<forall>k < length (self_charges s).
        (\<not> active (self_charges s ! k) \<longrightarrow> self_charges s' ! k = self_charges s ! k) \<and>
        (active (self_charges s' ! k) \<longrightarrow> active (self_charges s ! k)) \<and>
        length (self_trajectories s' ! k) =
          length (self_trajectories s ! k) + (if self_running s then 1 else 0))" ..
  then have "carried_over (if self_running s then 1 else 0) s s'"
    unfolding carried_over_def by simp
  with S show ?thesis by blast
qed

lemma run_carried_over:
  assumes "one_trajectory_per_charge s"
  shows "\<exists>s'. run evs s = Inr s' \<and> carried_over (advanced_ticks evs (self_running s)) s s'"
  using assms
proof (induction evs arbitrary: s)
  case Nil
  then show ?case by (simp add: carried_over_refl)
next
  case (Cons e es)
  show ?case
  proof (cases e)
    case Tick
    from update_carried_over [OF Cons.prems] obtain s1 where
      u: "update s = Inr s1" and r: "self_running s1 = self_running s"
      and c1: "carried_over (if self_running s then 1 else 0) s s1" by blast
    have wf1: "one_trajectory_per_charge s1" using c1 by (simp add: carried_over_def)
    from Cons.IH [OF wf1] obtain s2 where
      r2: "run es s1 = Inr s2"
      and c2: "carried_over (advanced_ticks es (self_running s1)) s1 s2" by blast
    have "run (e # es) s = Inr s2" using Tick u r2 by simp
    moreover have "carried_over (advanced_ticks (e # es) (self_running s)) s s2"
      using carried_over_trans [OF c1 c2] Tick r by simp
    ultimately show ?thesis by blast
  next
    case (SetDt v)
    have wf1: "one_trajectory_per_charge (update_dt s v)"
      using Cons.prems by (simp add: one_trajectory_per_charge_def update_dt_def)
    from Cons.IH [OF wf1] obtain s2 where
      r2: "run es (update_dt s v) = Inr s2"
      and c2: "carried_over (advanced_ticks es (self_running (update_dt s v))) (update_dt s v) s2"
      by blast
    have same: "self_charges (update_dt s v) = self_charges s"
      "self_trajectories (update_dt s v) = self_trajectories s"
      "self_running (update_dt s v) = self_running s"
      by (simp_all add: update_dt_def)
    have "carried_over (advanced_ticks (e # es) (self_running s)) s s2"
      using c2 SetDt unfolding carried_over_def same by simp
    moreover have "run (e # es) s = Inr s2" using SetDt r2 by simp
    ultimately show ?thesis by blast
  next
    case TogglePause
    have wf1: "one_trajectory_per_charge (toggle_pause s)"
      using Cons.prems by (simp add: one_trajectory_per_charge_def toggle_pause_def)
    from Cons.IH [OF wf1] obtain s2 where
      r2: "run es (toggle_pause s) = Inr s2"
      and c2: "carried_over (advanced_ticks es (self_running (toggle_pause s))) (toggle_pause s) s2"
      by blast
    have same: "self_charges (toggle_pause s) = self_charges s"
      "self_trajectories (toggle_pause s) = self_trajectories s"
      "self_running (toggle_pause s) = (\<not> self_running s)"
      by (simp_all add: toggle_pause_def)
    have "carried_over (advanced_ticks (e # es) (self_running s)) s s2"
      using c2 TogglePause unfolding carried_over_def same by simp
    moreover have "run (e # es) s = Inr s2" using TogglePause r2 by simp
    ultimately show ?thesis by blast
  qed
qed

subsection \<open>Inactive particles and the forces\<close>

lemma inner_body_inactive_irrelevant:
  assumes "i < length charges" "\<not> active (charges ! i)" "\<not> active c" "a \<noteq> i"
    "a < length charges" "j < length charges"
  shows "inner_body (charges[i := c]) a j forces = inner_body charges a j forces"
  using assms by (cases "j = i") (simp_all add: inner_body_def)

lemma outer_body_inactive_irrelevant:
  assumes "i < length charges" "\<not> active (charges ! i)" "\<not> active c" "a < length charges"
  shows "outer_body (charges[i := c]) a forces = outer_body charges a forces"
proof (cases "a = i")
  case True
  then show ?thesis using assms by (simp add: outer_body_def)
next
  case False
  have "fold (inner_body (charges[i := c]) a) [a + 1 ..< length charges] forces =
        fold (inner_body charges a) [a + 1 ..< length charges] forces"
  proof (rule fold_cong [OF refl refl])
    fix j assume "j \<in> set [a + 1 ..< length charges]"
    then have "j < length charges" by simp
    then show "inner_body (charges[i := c]) a j = inner_body charges a j"
      using assms False by (intro ext inner_body_inactive_irrelevant)
  qed
  then show ?thesis using False assms by (simp add: outer_body_def)
qed

lemma compute_forces_inactive_irrelevant:
  assumes "i < length charges" "\<not> active (charges ! i)" "\<not> active c"
  shows "compute_forces (charges[i := c]) = compute_forces charges"
proof -
  have "fold (outer_body (charges[i := c])) [0 ..< length charges]
          (replicate (length charges) 0) =
        fold (outer_body charges) [0 ..< length charges] (replicate (length charges) 0)"
  proof (rule fold_cong [OF refl refl])
    fix a assume "a \<in> set [0 ..< length charges]"
    then have "a < length charges" by simp
    then show "outer_body (charges[i := c]) a = outer_body charges a"
      using assms by (intro ext outer_body_inactive_irrelevant)
  qed
  then show ?thesis by (simp add: compute_forces_def)
qed

lemma compute_forces_inactive_zero:
  "i < length charges \<Longrightarrow> \<not> active (charges ! i) \<Longrightarrow> compute_forces charges ! i = 0"
  by (simp add: compute_forces_nth net_force_def)

subsection \<open>Loading a preset\<close>

lemma reset_simulation_result:
  assumes "reset_simulation r k = Inr r'"
  shows "self_trajectories r' = replicate (length (self_charges r')) [] \<and>
         (\<exists>p. py_index (self_presets r') (self_current_preset r') = Inr p \<and>
              self_charges r' = preset_charges p \<and> self_colors r' = preset_colors p)"
  using assms
  by (auto simp add: reset_simulation_def Let_def map_replicate_const
      split: option.splits sum.splits)

lemma init_result:
  assumes "ChargeSimulation_init ps = Inr r'"
  shows "self_trajectories r' = replicate (length (self_charges r')) [] \<and>
         \<not> self_running r' \<and> self_dt r' = default_dt \<and>
         (\<exists>p. py_index ps 0 = Inr p \<and>
              self_charges r' = preset_charges p \<and> self_colors r' = preset_colors p)"
  using assms
  by (auto simp add: ChargeSimulation_init_def map_replicate_const split: sum.splits)

lemma demo_start_facts:
  "one_trajectory_per_charge demo_start"
  "self_charges demo_start = [probe, parked]"
  "self_trajectories demo_start = [[], []]"
  "self_running demo_start"
  by (simp_all add: demo_start_def one_trajectory_per_charge_def)

lemma demo_events_ticks: "advanced_ticks demo_events True = 2"
  by (simp add: demo_events_def)

subsection \<open>The store model\<close>




lemma catalogue_allocatedD:
  "catalogue_allocated ps h \<Longrightarrow> p \<in> set ps \<Longrightarrow>
   ref_charges p < next_addr h \<and> ref_colors p < next_addr h"
  by (simp add: catalogue_allocated_def list_all_iff)

lemma preset_view_cong:
  assumes "charge_cells h' (ref_charges p) = charge_cells h (ref_charges p)"
    "color_cells h' (ref_colors p) = color_cells h (ref_colors p)"
  shows "preset_view h' p = preset_view h p"
  using assms by (simp add: preset_view_def)

lemma init_in_store_loaded:
  assumes "py_index ps 0 = Inr p"
  shows "init_in_store ps h =
     Inr (\<lparr>obj_dt = default_dt,
           obj_presets = ps,
           obj_current_preset = 0,
           obj_charges = next_addr h,
           obj_colors = Suc (next_addr h),
           obj_trajectories = replicate (length (charge_cells h (ref_charges p))) [],
           obj_running = False\<rparr>,
          h\<lparr>charge_cells := (charge_cells h)(next_addr h := charge_cells h (ref_charges p)),
            color_cells := (color_cells h)(Suc (next_addr h) := color_cells h (ref_colors p)),
            next_addr := Suc (Suc (next_addr h))\<rparr>)"
  using assms
  by (simp add: init_in_store_def copy_charges_def copy_colors_def map_replicate_const)


text \<open>
  The store model and the value model agree: as long as no preset shares a cell with
  the object's charge array, a frame in the store is a frame on the values read out of
  it, and so is a reset when the catalogue's arrays are allocated.
\<close>

lemma update_in_store_refines:
  assumes "\<forall>p \<in> set (obj_presets ob). ref_charges p \<noteq> obj_charges ob"
  shows "update (sim_view h ob) =
           map_sum id (\<lambda>(ob', h'). sim_view h' ob') (update_in_store ob h)"
proof (cases "obj_running ob")
  case False
  then show ?thesis by (simp add: update_def update_in_store_def sim_view_def)
next
  case True
  let ?cs = "update_physics (charge_cells h (obj_charges ob))
                    (compute_forces (charge_cells h (obj_charges ob))) (obj_dt ob)
                    (- 100000, 100000)"
  have presets: "map (preset_view (h\<lparr>charge_cells := (charge_cells h)(obj_charges ob := ?cs)\<rparr>))
            (obj_presets ob) = map (preset_view h) (obj_presets ob)"
    using assms by (intro map_cong refl preset_view_cong) simp_all
  show ?thesis
  proof (cases "append_positions ?cs [0 ..< length ?cs] (obj_trajectories ob)")
    case (Inl e)
    then show ?thesis using True
      by (simp add: update_def update_in_store_def sim_view_def Let_def)
  next
    case (Inr ts)
    then show ?thesis using True presets
      by (simp add: update_def update_in_store_def sim_view_def Let_def)
  qed
qed

lemma py_index_map:
  "py_index (map f xs) k = map_sum id f (py_index xs k)"
proof -
  have "nat k < length xs" if "0 \<le> k" "k < int (length xs)"
    using that by linarith
  moreover have "nat (int (length xs) + k) < length xs" if "k < 0" "- int (length xs) \<le> k"
    using that by linarith
  ultimately show ?thesis by (simp add: py_index_def)
qed

lemma loading_keeps_catalogue:
  assumes "catalogue_allocated ps h"
  shows "map (preset_view
               (h\<lparr>charge_cells := (charge_cells h)(next_addr h := cs),
                  color_cells := (color_cells h)(Suc (next_addr h) := ks),
                  next_addr := Suc (Suc (next_addr h))\<rparr>)) ps =
         map (preset_view h) ps"
proof (intro map_cong refl preset_view_cong)
  fix p assume "p \<in> set ps"
  then have "ref_charges p < next_addr h \<and> ref_colors p < next_addr h"
    using assms by (intro catalogue_allocatedD)
  then show "charge_cells
       (h\<lparr>charge_cells := (charge_cells h)(next_addr h := cs),
          color_cells := (color_cells h)(Suc (next_addr h) := ks),
          next_addr := Suc (Suc (next_addr h))\<rparr>) (ref_charges p) = charge_cells h (ref_charges p)"
    and "color_cells
       (h\<lparr>charge_cells := (charge_cells h)(next_addr h := cs),
          color_cells := (color_cells h)(Suc (next_addr h) := ks),
          next_addr := Suc (Suc (next_addr h))\<rparr>) (ref_colors p) = color_cells h (ref_colors p)"
    by simp_all
qed

lemma reset_in_store_refines:
  assumes "catalogue_allocated (obj_presets ob) h"
  shows "reset_simulation (sim_view h ob) preset_index =
           map_sum id (\<lambda>(ob', h'). sim_view h' ob') (reset_in_store ob preset_index h)"
proof -
  have core: "reset_simulation (sim_view h ob1) None =
           map_sum id (\<lambda>(ob', h'). sim_view h' ob') (reset_in_store ob1 None h)"
    if "catalogue_allocated (obj_presets ob1) h" for ob1
  proof (cases "py_index (obj_presets ob1) (obj_current_preset ob1)")
    case (Inl e)
    then show ?thesis
      by (simp add: reset_simulation_def reset_in_store_def sim_view_def py_index_map)
  next
    case (Inr p)
    then show ?thesis using loading_keeps_catalogue [OF that]
      by (simp add: reset_simulation_def reset_in_store_def sim_view_def py_index_map
          copy_charges_def copy_colors_def preset_view_def)
  qed
  show ?thesis
  proof (cases preset_index)
    case None
    then show ?thesis using core [OF assms] by simp
  next
    case (Some j)
    have a: "reset_simulation (sim_view h ob) (Some j) =
             reset_simulation (sim_view h (ob\<lparr>obj_current_preset := j\<rparr>)) None"
      by (simp add: reset_simulation_def sim_view_def)
    have b: "reset_in_store ob (Some j) h = reset_in_store (ob\<lparr>obj_current_preset := j\<rparr>) None h"
      by (simp add: reset_in_store_def)
    have "catalogue_allocated (obj_presets (ob\<lparr>obj_current_preset := j\<rparr>)) h"
      using assms by simp
    from core [OF this] show ?thesis unfolding Some a b .
  qed
qed

lemma demo_obj_from_init: "init_in_store demo_catalogue demo_store0 = Inr (demo_obj, demo_store)"
  by (simp add: init_in_store_def copy_charges_def copy_colors_def demo_catalogue_def
      demo_ref_def demo_store0_def demo_store_def demo_obj_def py_index_def numeral_2_eq_2 numeral_3_eq_3
      eval_nat_numeral)



subsection \<open>Loading without checks\<close>

lemma m_step_charge_list:
  "map m (update_physics charges forces dt boundary) = map m charges"
  by (rule nth_equalityI)
    (simp_all add: length_update_physics update_physics_nth step_charge_sel)


subsection \<open>The sum of all force rows\<close>

lemma sum_list_vec3_update:
  fixes xs :: "vec3 list"
  shows "i < length xs \<Longrightarrow> sum_list (xs[i := v]) = sum_list xs - xs ! i + v"
proof (induction xs arbitrary: i)
  case Nil
  then show ?case by simp
next
  case (Cons x xs)
  then show ?case by (cases i) (simp_all add: algebra_simps)
qed

lemma sum_list_inner_body:
  assumes "i \<noteq> j" "i < length forces" "j < length forces"
  shows "sum_list (inner_body charges i j forces) = sum_list forces"
  using assms
  by (simp add: inner_body_pair_term sum_list_vec3_update algebra_simps)

lemma sum_list_fold_inner:
  assumes "i \<notin> set js" "\<forall>j \<in> set js. j < length forces" "i < length forces"
  shows "sum_list (fold (inner_body charges i) js forces) = sum_list forces"
  using assms
proof (induction js arbitrary: forces)
  case Nil
  then show ?case by simp
next
  case (Cons j js)
  have "sum_list (fold (inner_body charges i) js (inner_body charges i j forces)) =
        sum_list (inner_body charges i j forces)"
    using Cons.prems by (intro Cons.IH) (simp_all add: length_inner_body)
  also have "\<dots> = sum_list forces"
    using Cons.prems by (intro sum_list_inner_body) auto
  finally show ?case by simp
qed

lemma sum_list_outer_body:
  assumes "i < length charges" "length forces = length charges"
  shows "sum_list (outer_body charges i forces) = sum_list forces"
  using assms by (simp add: outer_body_def sum_list_fold_inner)

lemma sum_list_fold_outer:
  assumes "\<forall>i \<in> set ks. i < length charges" "length forces = length charges"
  shows "sum_list (fold (outer_body charges) ks forces) = sum_list forces"
  using assms
proof (induction ks arbitrary: forces)
  case Nil
  then show ?case by simp
next
  case (Cons k ks)
  have "sum_list (fold (outer_body charges) ks (outer_body charges k forces)) =
        sum_list (outer_body charges k forces)"
    using Cons.prems by (intro Cons.IH) (simp_all add: length_outer_body)
  also have "\<dots> = sum_list forces"
    using Cons.prems by (intro sum_list_outer_body) simp_all
  finally show ?case by simp
qed

section \<open>The claims\<close>

text \<open>
  Claim C1, as stated: for the Dipole preset one frame gives particle 1 a force of about
  \<open>0.02809\<close> along \<open>+x\<close> (towards particle 2), a velocity of about \<open>2.809\<close> along
  \<open>+x\<close> and the position \<open>x \<approx> 4.01405\<close>. The code gives none of the three: the
  \<open>x\<close> component of the force is negative and further than \<open>0.01\<close> from \<open>0.02809\<close>,
  the \<open>x\<close> component of the new velocity is negative and further than \<open>1\<close> from
  \<open>2.809\<close>, and the new \<open>x\<close> is below \<open>4\<close> and further than \<open>0.01\<close> from
  \<open>4.01405\<close>.
\<close>

theorem dipole_first_step_counterexample:
  "c0 (compute_forces (preset_charges dipole) ! 0) < 0 \<and>
   \<not> \<bar>c0 (compute_forces (preset_charges dipole) ! 0) - 2809 / 10 ^ 5\<bar> \<le> 1 / 100 \<and>
   c0 (vel (dipole_tick ! 0)) < 0 \<and>
   \<not> \<bar>c0 (vel (dipole_tick ! 0)) - 2809 / 10 ^ 3\<bar> \<le> 1 \<and>
   c0 (pos (dipole_tick ! 0)) < 4 \<and>
   \<not> \<bar>c0 (pos (dipole_tick ! 0)) - 401405 / 10 ^ 5\<bar> \<le> 1 / 100"
proof -
  define X :: real where "X = 2 * (k_e * (5 / 10 ^ 6) * (5 / 10 ^ 6) / (2 + 1 / 10 ^ 14) ^ 3)"
  have lo: "56174 / 10 ^ 6 < X" and hi: "X < 56175 / 10 ^ 6"
    unfolding X_def by (rule dipole_force_bounds)+
  have F: "compute_forces (preset_charges dipole) ! 0 = Vec3 (- X) 0 0"
    unfolding X_def by (rule dipole_force_0)
  have V: "vel (dipole_tick ! 0) = Vec3 (- X / 2) 0 0"
    unfolding X_def by (rule dipole_tick_0)
  have P: "pos (dipole_tick ! 0) = Vec3 (4 - X / 400) 5 5"
    unfolding X_def by (rule dipole_tick_0)
  show ?thesis unfolding F V P vec3.sel using lo hi by (simp add: abs_if)
qed

text \<open>
  Claim C1, amended: for the Dipole preset (\<open>q1 = 5e-6\<close> at \<open>(4,5,5)\<close>,
  \<open>q2 = -5e-6\<close> at \<open>(6,5,5)\<close>, masses \<open>1e-2\<close>, velocities zero, \<open>dt = 0.005\<close>) one
  frame gives particle 1 a force along the \<open>x\<close> axis of magnitude
  \<open>k_e * 5e-6 * 5e-6 / (2 + 1e-14) ^ 3 * 2 \<approx> 0.056175\<close>, a new velocity along the \<open>x\<close>
  axis of magnitude about \<open>0.0280875\<close> (force / mass * dt), and a new position that
  differs from \<open>(4,5,5)\<close> by about \<open>0.00014044\<close> in \<open>x\<close> only.
\<close>

theorem dipole_first_step:
  "c1 (compute_forces (preset_charges dipole) ! 0) = 0 \<and>
   c2 (compute_forces (preset_charges dipole) ! 0) = 0 \<and>
   \<bar>c0 (compute_forces (preset_charges dipole) ! 0)\<bar> =
     k_e * (5 / 10 ^ 6) * (5 / 10 ^ 6) / (2 + 1 / 10 ^ 14) ^ 3 * 2 \<and>
   56174 / 10 ^ 6 < \<bar>c0 (compute_forces (preset_charges dipole) ! 0)\<bar> \<and>
   \<bar>c0 (compute_forces (preset_charges dipole) ! 0)\<bar> < 56175 / 10 ^ 6 \<and>
   c1 (vel (dipole_tick ! 0)) = 0 \<and>
   c2 (vel (dipole_tick ! 0)) = 0 \<and>
   28087 / 10 ^ 6 < \<bar>c0 (vel (dipole_tick ! 0))\<bar> \<and>
   \<bar>c0 (vel (dipole_tick ! 0))\<bar> < 28088 / 10 ^ 6 \<and>
   c1 (pos (dipole_tick ! 0)) = 5 \<and>
   c2 (pos (dipole_tick ! 0)) = 5 \<and>
   14043 / 10 ^ 8 < \<bar>c0 (pos (dipole_tick ! 0)) - 4\<bar> \<and>
   \<bar>c0 (pos (dipole_tick ! 0)) - 4\<bar> < 14044 / 10 ^ 8"
proof -
  define X :: real where "X = 2 * (k_e * (5 / 10 ^ 6) * (5 / 10 ^ 6) / (2 + 1 / 10 ^ 14) ^ 3)"
  have lo: "56174 / 10 ^ 6 < X" and hi: "X < 56175 / 10 ^ 6"
    unfolding X_def by (rule dipole_force_bounds)+
  have X: "k_e * (5 / 10 ^ 6) * (5 / 10 ^ 6) / (2 + 1 / 10 ^ 14) ^ 3 * 2 = X"
    unfolding X_def by simp
  have F: "compute_forces (preset_charges dipole) ! 0 = Vec3 (- X) 0 0"
    unfolding X_def by (rule dipole_force_0)
  have V: "vel (dipole_tick ! 0) = Vec3 (- X / 2) 0 0"
    unfolding X_def by (rule dipole_tick_0)
  have P: "pos (dipole_tick ! 0) = Vec3 (4 - X / 400) 5 5"
    unfolding X_def by (rule dipole_tick_0)
  show ?thesis unfolding F V P X vec3.sel using lo hi by (simp add: abs_if)
qed

text \<open>
  Claim C2. \<^verbatim>\<open>compute_forces\<close> returns one vector per particle, in the order and of
  the length of its input. Row \<open>i\<close> is zero when particle \<open>i\<close> is inactive; otherwise
  it is the sum, over the active \<open>j > i\<close>, of \<open>k_e * q_i * q_j / d ^ 3\<close> times
  \<open>r = pos_j - pos_i\<close>, minus the sum, over the active \<open>k < i\<close>, of the same term of
  the pair \<open>(k, i)\<close>, where \<open>d\<close> is the Euclidean norm of \<open>r\<close> plus \<open>1e-14\<close> and
  \<open>k_e = 8.988e9\<close>. Inactive particles occur in no sum.
\<close>

theorem compute_forces_meets_spec:
  "length (compute_forces charges) = length charges \<and>
   compute_forces charges = map (net_force charges) [0 ..< length charges]"
  by (simp add: length_compute_forces compute_forces_eq)

text \<open>
  Claim C3. For an active particle \<open>i\<close> (of positive mass, the data model's
  invariant) one call of \<^verbatim>\<open>update_physics\<close> sets the velocity to
  \<open>vel_i + forces_i / m_i * dt\<close> and then the position to \<open>pos_i + vel_i * dt\<close> with the
  velocity just written. When no other particle is active, \<^verbatim>\<open>compute_forces\<close> gives
  particle \<open>i\<close> the zero vector, and the step leaves its velocity as it was and moves
  its position by exactly \<open>vel_i * dt\<close>.
\<close>

theorem semi_implicit_euler_step:
  assumes "i < length charges" "length forces = length charges"
    "active (charges ! i)" "0 < m (charges ! i)"
  shows "vel (update_physics charges forces dt boundary ! i) =
           vel (charges ! i) + scale dt (vdiv (forces ! i) (m (charges ! i))) \<and>
         pos (update_physics charges forces dt boundary ! i) =
           pos (charges ! i) + scale dt (vel (update_physics charges forces dt boundary ! i)) \<and>
         ((\<forall>j < length charges. j \<noteq> i \<longrightarrow> \<not> active (charges ! j)) \<longrightarrow>
            compute_forces charges ! i = 0 \<and>
            vel (update_physics charges (compute_forces charges) dt boundary ! i) =
              vel (charges ! i) \<and>
            pos (update_physics charges (compute_forces charges) dt boundary ! i) =
              pos (charges ! i) + scale dt (vel (charges ! i)))"
proof (intro conjI impI)
  show "vel (update_physics charges forces dt boundary ! i) =
           vel (charges ! i) + scale dt (vdiv (forces ! i) (m (charges ! i)))"
    using assms by (simp add: update_physics_nth step_charge_sel)
  show "pos (update_physics charges forces dt boundary ! i) =
           pos (charges ! i) + scale dt (vel (update_physics charges forces dt boundary ! i))"
    using assms by (simp add: update_physics_nth step_charge_sel)
next
  assume alone: "\<forall>j < length charges. j \<noteq> i \<longrightarrow> \<not> active (charges ! j)"
  then have zero: "compute_forces charges ! i = 0"
    using assms(1) by (simp add: compute_forces_nth net_force_alone)
  show "compute_forces charges ! i = 0" by (rule zero)
  show "vel (update_physics charges (compute_forces charges) dt boundary ! i) = vel (charges ! i)"
    using assms by (simp add: update_physics_nth step_charge_sel zero scale_zero)
  show "pos (update_physics charges (compute_forces charges) dt boundary ! i) =
          pos (charges ! i) + scale dt (vel (charges ! i))"
    using assms by (simp add: update_physics_nth step_charge_sel zero scale_zero)
qed

theorem semi_implicit_euler_step_witness:
  "vel (update_physics [probe, parked] [Vec3 2 0 0, 0] (1 / 2) (- 10, 10) ! 0) = Vec3 (9 / 2) 0 0 \<and>
   pos (update_physics [probe, parked] [Vec3 2 0 0, 0] (1 / 2) (- 10, 10) ! 0) = Vec3 (13 / 4) 2 3 \<and>
   compute_forces [probe, parked] ! 0 = 0 \<and>
   vel (update_physics [probe, parked] (compute_forces [probe, parked]) (1 / 2) (- 10, 10) ! 0)
     = Vec3 4 0 0 \<and>
   pos (update_physics [probe, parked] (compute_forces [probe, parked]) (1 / 2) (- 10, 10) ! 0)
     = Vec3 3 2 3"
proof -
  have alone: "\<forall>j < length [probe, parked]. j \<noteq> 0 \<longrightarrow> \<not> active ([probe, parked] ! j)"
    by (simp add: less_Suc_eq parked_def)
  show ?thesis
    using semi_implicit_euler_step [of 0 "[probe, parked]" "[Vec3 2 0 0, 0]" "1 / 2" "(- 10, 10)"]
      alone
    by (simp add: probe_def vec3_arith)
qed

text \<open>
  Claim C4. After the position update of an active particle, if some coordinate of its
  new position lies outside \<open>[lo, hi]\<close>, the particle's flag is cleared; its position
  is the one the single Euler update computed, neither clamped nor reflected, and its
  velocity is the updated one, not turned back; the array keeps its length.
\<close>

theorem boundary_hard_cutoff:
  assumes "i < length charges" "length forces = length charges"
    "active (charges ! i)" "0 < m (charges ! i)"
  shows "length (update_physics charges forces dt (lo, hi)) = length charges \<and>
         pos (update_physics charges forces dt (lo, hi) ! i) =
           pos (charges ! i) +
             scale dt (vel (charges ! i) + scale dt (vdiv (forces ! i) (m (charges ! i)))) \<and>
         vel (update_physics charges forces dt (lo, hi) ! i) =
           vel (charges ! i) + scale dt (vdiv (forces ! i) (m (charges ! i))) \<and>
         ((\<exists>x \<in> {c0 (pos (update_physics charges forces dt (lo, hi) ! i)),
                  c1 (pos (update_physics charges forces dt (lo, hi) ! i)),
                  c2 (pos (update_physics charges forces dt (lo, hi) ! i))}. x < lo \<or> hi < x)
            \<longrightarrow> \<not> active (update_physics charges forces dt (lo, hi) ! i))"
  using assms
  by (auto simp add: length_update_physics update_physics_nth step_charge_sel out_of_bounds_def)

theorem boundary_hard_cutoff_witness:
  "length (update_physics [outbound, parked] [0, 0] (1 / 2) (- 10, 10)) = 2 \<and>
   pos (update_physics [outbound, parked] [0, 0] (1 / 2) (- 10, 10) ! 0) = Vec3 (104 / 10) 0 0 \<and>
   vel (update_physics [outbound, parked] [0, 0] (1 / 2) (- 10, 10) ! 0) = Vec3 1 0 0 \<and>
   \<not> active (update_physics [outbound, parked] [0, 0] (1 / 2) (- 10, 10) ! 0)"
  using boundary_hard_cutoff [of 0 "[outbound, parked]" "[0, 0]" "1 / 2" "- 10" 10]
  by (simp add: outbound_def vec3_arith zero_vec3_def)

text \<open>
  Claim C5. Deactivation is permanent within a run. Let particle \<open>i\<close> be inactive in a
  state that has one trajectory per charge. Then every run (timer callbacks, slider
  moves and pause presses, in any order) ends without an exception in a state where
  particle \<open>i\<close> is the record it was (same position, same velocity, flag still
  false); no particle's flag has gone from false to true; the force row of \<open>i\<close> is
  zero; and the forces do not depend on particle \<open>i\<close>: replacing it by any other
  inactive record leaves \<^verbatim>\<open>compute_forces\<close> unchanged.
\<close>

theorem deactivation_is_permanent:
  assumes "one_trajectory_per_charge s" "i < length (self_charges s)"
    "\<not> active (self_charges s ! i)"
  shows "\<exists>s'. run evs s = Inr s' \<and>
           length (self_charges s') = length (self_charges s) \<and>
           self_charges s' ! i = self_charges s ! i \<and>
           (\<forall>k < length (self_charges s).
              active (self_charges s' ! k) \<longrightarrow> active (self_charges s ! k)) \<and>
           compute_forces (self_charges s') ! i = 0 \<and>
           (\<forall>c. \<not> active c \<longrightarrow>
              compute_forces ((self_charges s')[i := c]) = compute_forces (self_charges s'))"
proof -
  from run_carried_over [OF assms(1)] obtain s' where
    r: "run evs s = Inr s'"
    and c: "carried_over (advanced_ticks evs (self_running s)) s s'" by blast
  have len: "length (self_charges s') = length (self_charges s)"
    using c unfolding carried_over_def by (elim conjE)
  have same: "self_charges s' ! i = self_charges s ! i"
    using c assms(2,3) unfolding carried_over_def by blast
  have mono: "\<forall>k < length (self_charges s).
              active (self_charges s' ! k) \<longrightarrow> active (self_charges s ! k)"
    using c unfolding carried_over_def by blast
  have i': "i < length (self_charges s')" using assms(2) len by simp
  have off: "\<not> active (self_charges s' ! i)" using assms(3) same by simp
  have zero: "compute_forces (self_charges s') ! i = 0"
    using i' off by (rule compute_forces_inactive_zero)
  have indep: "\<forall>c. \<not> active c \<longrightarrow>
      compute_forces ((self_charges s')[i := c]) = compute_forces (self_charges s')"
    using i' off by (simp add: compute_forces_inactive_irrelevant)
  show ?thesis using r len same mono zero indep by blast
qed

theorem deactivation_is_permanent_witness:
  "(case run demo_events demo_start of
      Inl e \<Rightarrow> False
    | Inr s' \<Rightarrow>
        self_charges s' ! 1 = parked \<and>
        compute_forces (self_charges s') ! 1 = 0 \<and>
        compute_forces ((self_charges s')[1 := parked\<lparr>pos := Vec3 9 9 9, q := 1\<rparr>]) =
          compute_forces (self_charges s'))"
proof -
  have i: "1 < length (self_charges demo_start)" by (simp add: demo_start_facts)
  have off: "\<not> active (self_charges demo_start ! 1)" by (simp add: demo_start_facts parked_def)
  from deactivation_is_permanent [OF demo_start_facts(1) i off, of demo_events]
  obtain s' where r: "run demo_events demo_start = Inr s'"
    and same: "self_charges s' ! 1 = self_charges demo_start ! 1"
    and zero: "compute_forces (self_charges s') ! 1 = 0"
    and indep: "\<forall>c. \<not> active c \<longrightarrow>
      compute_forces ((self_charges s')[1 := c]) = compute_forces (self_charges s')"
    by blast
  have "\<not> active (parked\<lparr>pos := Vec3 9 9 9, q := 1\<rparr>)" by (simp add: parked_def)
  with indep have "compute_forces ((self_charges s')[1 := parked\<lparr>pos := Vec3 9 9 9, q := 1\<rparr>]) =
          compute_forces (self_charges s')" by blast
  moreover have "self_charges s' ! 1 = parked" using same by (simp add: demo_start_facts)
  ultimately show ?thesis using r zero by simp
qed

text \<open>
  Claim C6. When exactly two particles \<open>i < j\<close> are active, the force on \<open>i\<close> is the
  pair term, the force on \<open>j\<close> is its negation, so \<open>force_i = - force_j\<close>; and one
  pass of the inner loop body changes row \<open>i\<close> by the negation of what it changes row
  \<open>j\<close> by: the reverse pair is never computed on its own.
\<close>

theorem newton_third_law_pair:
  assumes "i < j" "j < length charges" "active (charges ! i)" "active (charges ! j)"
    "\<forall>k < length charges. k \<noteq> i \<and> k \<noteq> j \<longrightarrow> \<not> active (charges ! k)"
  shows "compute_forces charges ! i = pair_term (charges ! i) (charges ! j) \<and>
         compute_forces charges ! j = - pair_term (charges ! i) (charges ! j) \<and>
         compute_forces charges ! i = - (compute_forces charges ! j) \<and>
         (\<forall>forces. length forces = length charges \<longrightarrow>
            inner_body charges i j forces ! i - forces ! i =
              - (inner_body charges i j forces ! j - forces ! j))"
proof -
  have a1: "active_in charges (Suc i) (length charges) = [j]"
    unfolding active_in_def using assms by (intro filter_upt_single) auto
  have a2: "active_in charges 0 i = []"
    unfolding active_in_def using assms by (intro filter_upt_none) auto
  have a3: "active_in charges (Suc j) (length charges) = []"
    unfolding active_in_def using assms by (intro filter_upt_none) auto
  have a4: "active_in charges 0 j = [i]"
    unfolding active_in_def using assms by (intro filter_upt_single) auto
  have fi: "compute_forces charges ! i = pair_term (charges ! i) (charges ! j)"
    using assms by (simp add: compute_forces_nth net_force_def a1 a2)
  have fj: "compute_forces charges ! j = - pair_term (charges ! i) (charges ! j)"
    using assms by (simp add: compute_forces_nth net_force_def a3 a4)
  have step: "inner_body charges i j forces ! i - forces ! i =
              - (inner_body charges i j forces ! j - forces ! j)"
    if "length forces = length charges" for forces
    using that assms by (simp add: inner_body_nth)
  show ?thesis using fi fj step by simp
qed

theorem newton_third_law_pair_witness:
  "compute_forces (preset_charges dipole) ! 0 =
     pair_term (preset_charges dipole ! 0) (preset_charges dipole ! 1) \<and>
   compute_forces (preset_charges dipole) ! 1 =
     - pair_term (preset_charges dipole ! 0) (preset_charges dipole ! 1) \<and>
   compute_forces (preset_charges dipole) ! 0 = - (compute_forces (preset_charges dipole) ! 1) \<and>
   inner_body (preset_charges dipole) 0 1 [0, 0] ! 0 - [0, 0] ! 0 =
     - (inner_body (preset_charges dipole) 0 1 [0, 0] ! 1 - [0, 0] ! 1)"
proof -
  have h1: "(0::nat) < 1" by simp
  have h2: "1 < length (preset_charges dipole)" by (simp add: dipole_charges)
  have h3: "active (preset_charges dipole ! 0)" by (simp add: dipole_charges)
  have h4: "active (preset_charges dipole ! 1)" by (simp add: dipole_charges)
  have h5: "\<forall>k < length (preset_charges dipole). k \<noteq> 0 \<and> k \<noteq> 1 \<longrightarrow>
      \<not> active (preset_charges dipole ! k)"
    by (simp add: dipole_charges less_Suc_eq)
  have len: "length [0, 0 :: vec3] = length (preset_charges dipole)"
    by (simp add: dipole_charges)
  note T = newton_third_law_pair [OF h1 h2 h3 h4 h5]
  from T len show ?thesis by blast
qed



text \<open>
  Claim C8. A callback that gets past the pause check appends to every trajectory,
  the inactive particles' included, the position its particle has after
  \<^verbatim>\<open>update_physics\<close> has run; a paused callback appends nothing. So after any run
  that starts with empty trajectories, every trajectory has as many entries as
  callbacks got past the pause check. \<^verbatim>\<open>reset_simulation\<close> and \<^verbatim>\<open>__init__\<close> leave one
  empty trajectory per charge of the preset they load.
\<close>

theorem trajectory_recording:
  "(self_running t \<and> one_trajectory_per_charge t \<longrightarrow>
      (\<exists>t'. update t = Inr t' \<and>
         self_charges t' =
           update_physics (self_charges t) (compute_forces (self_charges t)) (self_dt t)
             (- 100000, 100000) \<and>
         length (self_trajectories t') = length (self_charges t') \<and>
         (\<forall>i < length (self_charges t').
            self_trajectories t' ! i = self_trajectories t ! i @ [pos (self_charges t' ! i)]))) \<and>
   (\<not> self_running t \<longrightarrow> update t = Inr t) \<and>
   (self_trajectories s = replicate (length (self_charges s)) [] \<longrightarrow>
      (\<exists>s'. run evs s = Inr s' \<and>
         length (self_charges s') = length (self_charges s) \<and>
         length (self_trajectories s') = length (self_charges s') \<and>
         (\<forall>i < length (self_charges s').
            length (self_trajectories s' ! i) = advanced_ticks evs (self_running s)))) \<and>
   (\<forall>r'. reset_simulation r k = Inr r' \<longrightarrow>
      self_trajectories r' = replicate (length (self_charges r')) []) \<and>
   (\<forall>r'. ChargeSimulation_init ps = Inr r' \<longrightarrow>
      self_trajectories r' = replicate (length (self_charges r')) [])"
proof (intro conjI impI allI)
  assume a: "self_running t \<and> one_trajectory_per_charge t"
  let ?cs = "update_physics (self_charges t) (compute_forces (self_charges t)) (self_dt t)
                (- 100000, 100000)"
  let ?t' = "t\<lparr>self_charges := ?cs, self_trajectories := record_all ?cs (self_trajectories t)\<rparr>"
  have len: "length (self_trajectories t) = length (self_charges t)"
    using a by (simp add: one_trajectory_per_charge_def)
  have u: "update t = Inr ?t'" using a by (intro update_running) simp_all
  have "length (self_trajectories ?t') = length (self_charges ?t')"
    using len by (simp add: length_record_all length_update_physics)
  moreover have "\<forall>i < length (self_charges ?t').
      self_trajectories ?t' ! i = self_trajectories t ! i @ [pos (self_charges ?t' ! i)]"
    using len by (simp add: length_update_physics record_all_nth)
  moreover have "self_charges ?t' = ?cs" by simp
  ultimately show "\<exists>t'. update t = Inr t' \<and>
         self_charges t' = ?cs \<and>
         length (self_trajectories t') = length (self_charges t') \<and>
         (\<forall>i < length (self_charges t').
            self_trajectories t' ! i = self_trajectories t ! i @ [pos (self_charges t' ! i)])"
    using u by blast
next
  assume "\<not> self_running t"
  then show "update t = Inr t" by (rule update_paused)
next
  assume fresh: "self_trajectories s = replicate (length (self_charges s)) []"
  then have wf: "one_trajectory_per_charge s"
    by (simp add: one_trajectory_per_charge_def)
  from run_carried_over [OF wf] obtain s' where
    r: "run evs s = Inr s'"
    and c: "carried_over (advanced_ticks evs (self_running s)) s s'" by blast
  have len: "length (self_charges s') = length (self_charges s)"
    using c unfolding carried_over_def by (elim conjE)
  have wf': "length (self_trajectories s') = length (self_charges s')"
    using c unfolding carried_over_def one_trajectory_per_charge_def by (elim conjE)
  have "length (self_trajectories s' ! i) = advanced_ticks evs (self_running s)"
    if "i < length (self_charges s')" for i
  proof -
    have i: "i < length (self_charges s)" using that len by simp
    then have "length (self_trajectories s' ! i) =
        length (self_trajectories s ! i) + advanced_ticks evs (self_running s)"
      using c unfolding carried_over_def by blast
    moreover have "self_trajectories s ! i = []" using fresh i by simp
    ultimately show ?thesis by simp
  qed
  then show "\<exists>s'. run evs s = Inr s' \<and>
         length (self_charges s') = length (self_charges s) \<and>
         length (self_trajectories s') = length (self_charges s') \<and>
         (\<forall>i < length (self_charges s').
            length (self_trajectories s' ! i) = advanced_ticks evs (self_running s))"
    using r len wf' by blast
next
  fix r' assume "reset_simulation r k = Inr r'"
  then show "self_trajectories r' = replicate (length (self_charges r')) []"
    using reset_simulation_result by blast
next
  fix r' assume "ChargeSimulation_init ps = Inr r'"
  then show "self_trajectories r' = replicate (length (self_charges r')) []"
    using init_result by blast
qed

theorem trajectory_recording_witness:
  "(case update demo_start of
      Inl e \<Rightarrow> False
    | Inr t' \<Rightarrow>
        self_trajectories t' ! 0 = [pos (self_charges t' ! 0)] \<and>
        self_trajectories t' ! 1 = [pos parked]) \<and>
   update (toggle_pause demo_start) = Inr (toggle_pause demo_start) \<and>
   (case run demo_events demo_start of
      Inl e \<Rightarrow> False
    | Inr s' \<Rightarrow>
        length (self_trajectories s') = 2 \<and>
        length (self_trajectories s' ! 0) = 2 \<and>
        length (self_trajectories s' ! 1) = 2) \<and>
   (case reset_simulation demo_start (Some 0) of
      Inl e \<Rightarrow> False
    | Inr r' \<Rightarrow> self_trajectories r' = [[], []]) \<and>
   (case ChargeSimulation_init [demo_preset] of
      Inl e \<Rightarrow> False
    | Inr r' \<Rightarrow> self_trajectories r' = [[], []])"
proof -
  note T = trajectory_recording [of demo_start demo_start demo_events demo_start "Some 0"
      "[demo_preset]"]
  have fresh: "self_trajectories demo_start = replicate (length (self_charges demo_start)) []"
    by (simp add: demo_start_facts numeral_2_eq_2)
  from T demo_start_facts(1,4) obtain t' where
    u: "update demo_start = Inr t'"
    and cs: "self_charges t' =
           update_physics (self_charges demo_start) (compute_forces (self_charges demo_start))
             (self_dt demo_start) (- 100000, 100000)"
    and l: "length (self_trajectories t') = length (self_charges t')"
    and each: "\<forall>i < length (self_charges t').
            self_trajectories t' ! i = self_trajectories demo_start ! i @ [pos (self_charges t' ! i)]"
    by blast
  have l2: "length (self_charges t') = 2"
    unfolding cs by (simp add: length_update_physics demo_start_facts)
  have p1: "self_charges t' ! 1 = parked"
    unfolding cs by (simp add: update_physics_inactive demo_start_facts parked_def)
  have first: "self_trajectories t' ! 0 = [pos (self_charges t' ! 0)] \<and>
        self_trajectories t' ! 1 = [pos parked]"
    using each l2 p1 by (simp add: demo_start_facts)
  have paused: "update (toggle_pause demo_start) = Inr (toggle_pause demo_start)"
    using trajectory_recording [of "toggle_pause demo_start" demo_start demo_events demo_start
        "Some 0" "[demo_preset]"]
    by (simp add: toggle_pause_def demo_start_facts)
  from T fresh obtain s' where
    r: "run demo_events demo_start = Inr s'"
    and ls: "length (self_charges s') = length (self_charges demo_start)"
    and lt: "length (self_trajectories s') = length (self_charges s')"
    and n: "\<forall>i < length (self_charges s').
            length (self_trajectories s' ! i) = advanced_ticks demo_events (self_running demo_start)"
    by blast
  have run_part: "length (self_trajectories s') = 2 \<and>
        length (self_trajectories s' ! 0) = 2 \<and>
        length (self_trajectories s' ! 1) = 2"
    using ls lt n by (simp add: demo_start_facts demo_events_ticks)
  obtain r' where rr: "reset_simulation demo_start (Some 0) = Inr r'"
    by (simp add: reset_simulation_def demo_start_def py_index_def)
  with T have "self_trajectories r' = replicate (length (self_charges r')) []" by blast
  moreover have "self_charges r' = [probe, parked]"
    using rr by (auto simp add: reset_simulation_def demo_start_def py_index_def demo_preset_def)
  ultimately have reset_part: "self_trajectories r' = [[], []]" by (simp add: numeral_2_eq_2)
  obtain i' where ii: "ChargeSimulation_init [demo_preset] = Inr i'"
    by (simp add: ChargeSimulation_init_def py_index_def)
  with T have "self_trajectories i' = replicate (length (self_charges i')) []" by blast
  moreover have "self_charges i' = [probe, parked]"
    using ii by (auto simp add: ChargeSimulation_init_def py_index_def demo_preset_def)
  ultimately have init_part: "self_trajectories i' = [[], []]" by (simp add: numeral_2_eq_2)
  show ?thesis using u first paused r run_part rr reset_part ii init_part by simp
qed




text \<open>
  Claim C10. The boundary test is strict: an active particle stays active after the
  step exactly when every coordinate of its new position lies in the closed interval
  \<open>[lo, hi]\<close>; a coordinate equal to \<open>lo\<close> or to \<open>hi\<close> does not deactivate it.
\<close>

theorem boundary_test_strict:
  assumes "i < length charges" "length forces = length charges" "active (charges ! i)"
  shows "active (update_physics charges forces dt (lo, hi) ! i) \<longleftrightarrow>
           (\<forall>x \<in> {c0 (pos (update_physics charges forces dt (lo, hi) ! i)),
                   c1 (pos (update_physics charges forces dt (lo, hi) ! i)),
                   c2 (pos (update_physics charges forces dt (lo, hi) ! i))}. lo \<le> x \<and> x \<le> hi)"
  using assms
  by (auto simp add: update_physics_nth step_charge_sel out_of_bounds_def)

theorem boundary_test_strict_witness:
  "pos (update_physics [grazing] [0] (1 / 2) (- 10, 10) ! 0) = Vec3 10 0 (- 10) \<and>
   active (update_physics [grazing] [0] (1 / 2) (- 10, 10) ! 0)"
proof -
  have p: "pos (update_physics [grazing] [0] (1 / 2) (- 10, 10) ! 0) = Vec3 10 0 (- 10)"
    by (simp add: update_physics_nth step_charge_sel grazing_def vec3_arith zero_vec3_def)
  show ?thesis
    using boundary_test_strict [of 0 "[grazing]" "[0]" "1 / 2" "- 10" 10] p
    by (simp add: grazing_def)
qed

section \<open>Further properties\<close>

text \<open>
  Extra X1. The force rows \<^verbatim>\<open>compute_forces\<close> returns add up to the zero vector,
  whatever the charges, positions and flags: every pass of the inner loop body adds to
  one row what it subtracts from another.
\<close>

theorem forces_sum_to_zero: "sum_list (compute_forces charges) = 0"
proof -
  have "sum_list (compute_forces charges) = sum_list (replicate (length charges) (0::vec3))"
    unfolding compute_forces_def by (intro sum_list_fold_outer) simp_all
  moreover have "sum_list (replicate n (0::vec3)) = 0" for n
    by (induction n) simp_all
  ultimately show ?thesis by simp
qed

text \<open>
  Extra X2. \<^verbatim>\<open>update_physics\<close> keeps the length of the array and writes neither the
  charge nor the mass of any particle.
\<close>

theorem update_physics_keeps_charge_and_mass:
  "length (update_physics charges forces dt boundary) = length charges \<and>
   map q (update_physics charges forces dt boundary) = map q charges \<and>
   map m (update_physics charges forces dt boundary) = map m charges"
proof -
  have "map q (update_physics charges forces dt boundary) = map q charges"
    by (rule nth_equalityI)
      (simp_all add: length_update_physics update_physics_nth step_charge_sel)
  then show ?thesis by (simp add: length_update_physics m_step_charge_list)
qed

end
